theory Spec2Isabelle
  imports Complex_Main
begin

section \<open>JavaScript values used by the payroll core\<close>

text \<open>
  The core of \<^verbatim>\<open>src/App.jsx\<close> is the pair \<^verbatim>\<open>getPeriods\<close> / \<^verbatim>\<open>calculateRetroactive\<close>
  (second revision, lines 501-732). Both work on JavaScript numbers and strings.

  A JavaScript number is modelled as \<open>NaN\<close>, one of the two infinities, or a finite value.
  Finite values are exact rationals: the model agrees with the double arithmetic of the
  program wherever every intermediate value is exactly representable (all integers below
  \<open>2^53\<close> in magnitude, hence every date component of a realistic input), and it idealises the
  rounding of doubles elsewhere. The sign of zero is not tracked; the program never
  divides by a variable and never prints a quotient.
\<close>

datatype jsnum = NaN | PInf | NInf | Fin rat

text \<open>A field of an input row: absent (\<^verbatim>\<open>undefined\<close>), a string, or a number.\<close>

datatype jsval = Undefined | JStr string | JNum jsnum

subsection \<open>Arithmetic and comparison\<close>

fun js_neg :: "jsnum \<Rightarrow> jsnum" where
  "js_neg NaN = NaN"
| "js_neg PInf = NInf"
| "js_neg NInf = PInf"
| "js_neg (Fin a) = Fin (- a)"

fun js_add :: "jsnum \<Rightarrow> jsnum \<Rightarrow> jsnum" where
  "js_add (Fin a) (Fin b) = Fin (a + b)"
| "js_add NaN _ = NaN"
| "js_add _ NaN = NaN"
| "js_add PInf NInf = NaN"
| "js_add NInf PInf = NaN"
| "js_add PInf _ = PInf"
| "js_add _ PInf = PInf"
| "js_add NInf _ = NInf"
| "js_add _ NInf = NInf"

definition js_sub :: "jsnum \<Rightarrow> jsnum \<Rightarrow> jsnum" where
  "js_sub a b = js_add a (js_neg b)"

text \<open>The sign of a non-NaN number: \<open>-1\<close>, \<open>0\<close> or \<open>1\<close>.\<close>

fun js_sign :: "jsnum \<Rightarrow> int" where
  "js_sign NaN = 0"
| "js_sign PInf = 1"
| "js_sign NInf = - 1"
| "js_sign (Fin a) = (if a < 0 then - 1 else if a = 0 then 0 else 1)"

fun js_mul :: "jsnum \<Rightarrow> jsnum \<Rightarrow> jsnum" where
  "js_mul (Fin a) (Fin b) = Fin (a * b)"
| "js_mul NaN _ = NaN"
| "js_mul _ NaN = NaN"
| "js_mul a b =
     (let s = js_sign a * js_sign b
      in if s = 0 then NaN else if s < 0 then NInf else PInf)"

text \<open>
  Division. A zero divisor is read as \<open>+0\<close>; the only divisor in the program is the
  literal \<open>240\<close>.
\<close>

fun js_div :: "jsnum \<Rightarrow> jsnum \<Rightarrow> jsnum" where
  "js_div NaN _ = NaN"
| "js_div _ NaN = NaN"
| "js_div (Fin a) (Fin b) =
     (if b \<noteq> 0 then Fin (a / b)
      else if a = 0 then NaN else if a < 0 then NInf else PInf)"
| "js_div (Fin a) _ = Fin 0"
| "js_div a (Fin b) =
     (if js_sign a * (if b < 0 then - 1 else 1) < 0 then NInf else PInf)"
| "js_div _ _ = NaN"

text \<open>\<^verbatim>\<open>a < b\<close>: false as soon as one side is NaN.\<close>

fun js_lt :: "jsnum \<Rightarrow> jsnum \<Rightarrow> bool" where
  "js_lt (Fin a) (Fin b) = (a < b)"
| "js_lt NaN _ = False"
| "js_lt _ NaN = False"
| "js_lt NInf b = (b \<noteq> NInf)"
| "js_lt a PInf = (a \<noteq> PInf)"
| "js_lt _ _ = False"

definition js_gt :: "jsnum \<Rightarrow> jsnum \<Rightarrow> bool" where
  "js_gt a b = js_lt b a"

text \<open>\<^verbatim>\<open>a === b\<close> on numbers: NaN is not equal to itself.\<close>

definition js_seq :: "jsnum \<Rightarrow> jsnum \<Rightarrow> bool" where
  "js_seq a b = (a \<noteq> NaN \<and> a = b)"

definition js_le :: "jsnum \<Rightarrow> jsnum \<Rightarrow> bool" where
  "js_le a b = (js_lt a b \<or> js_seq a b)"

definition js_isNaN :: "jsnum \<Rightarrow> bool" where
  "js_isNaN a = (a = NaN)"

text \<open>Truthiness of a number (\<^verbatim>\<open>!x\<close> is its negation): NaN and zero are falsy.\<close>

definition num_truthy :: "jsnum \<Rightarrow> bool" where
  "num_truthy a = (a \<noteq> NaN \<and> a \<noteq> Fin 0)"

fun truthy :: "jsval \<Rightarrow> bool" where
  "truthy Undefined = False"
| "truthy (JStr s) = (s \<noteq> [])"
| "truthy (JNum a) = num_truthy a"

text \<open>\<^verbatim>\<open>x || 0\<close> on a number.\<close>

definition or_zero :: "jsnum \<Rightarrow> jsnum" where
  "or_zero a = (if num_truthy a then a else Fin 0)"

text \<open>
  \<^verbatim>\<open>Math.round\<close>: the nearest integer, a tie going up (towards \<open>+\<infinity>\<close>); NaN and the
  infinities are returned unchanged.
\<close>

fun Math_round :: "jsnum \<Rightarrow> jsnum" where
  "Math_round (Fin a) = Fin (of_int \<lfloor>a + 1 / 2\<rfloor>)"
| "Math_round a = a"

subsection \<open>Strings\<close>

text \<open>
  Strings are lists of 8-bit characters: the Latin-1 code units of the program's UTF-16
  strings, which is all the program's own literals need.
\<close>

definition str_includes :: "string \<Rightarrow> char \<Rightarrow> bool" where
  "str_includes str c = (c \<in> set str)"

text \<open>
  \<^verbatim>\<open>str.split(c)\<close> for a one-character separator: the pieces between the separators,
  always at least one piece.
\<close>

fun split :: "char \<Rightarrow> string \<Rightarrow> string list" where
  "split c [] = [[]]"
| "split c (x # xs) =
     (if x = c then [] # split c xs
      else (case split c xs of
              [] \<Rightarrow> [[x]]
            | p # ps \<Rightarrow> (x # p) # ps))"

text \<open>\<^verbatim>\<open>s.padStart(2, '0')\<close>\<close>

definition padStart2 :: "string \<Rightarrow> string" where
  "padStart2 s = replicate (2 - length s) CHR ''0'' @ s"

subsection \<open>Number to string\<close>

definition digit_char :: "nat \<Rightarrow> char" where
  "digit_char d = ''0123456789'' ! (d mod 10)"

fun nat_digits :: "nat \<Rightarrow> string" where
  "nat_digits n = (if n < 10 then [digit_char n] else nat_digits (n div 10) @ [digit_char n])"

declare nat_digits.simps [simp del]

text \<open>The digits of a fraction \<open>0 \<le> f < 1\<close>, at most \<open>k\<close> of them, stopping when it is exhausted.\<close>

fun frac_digits :: "nat \<Rightarrow> rat \<Rightarrow> string" where
  "frac_digits 0 f = []"
| "frac_digits (Suc k) f =
     (if f = 0 then []
      else digit_char (nat \<lfloor>10 * f\<rfloor>) # frac_digits k (10 * f - of_int \<lfloor>10 * f\<rfloor>))"

text \<open>
  \<^verbatim>\<open>String(x)\<close> and \<^verbatim>\<open>`${x}`\<close> for a number. Integers print as their decimal digits; a
  value with a fractional part prints positionally, with up to twenty fractional digits.
  This is what JavaScript prints for integers below \<open>10^21\<close> and for decimal fractions of
  at most fifteen significant digits; the exponential notation of larger and smaller
  magnitudes is not modelled.
\<close>

fun toString :: "jsnum \<Rightarrow> string" where
  "toString NaN = ''NaN''"
| "toString PInf = ''Infinity''"
| "toString NInf = ''-Infinity''"
| "toString (Fin a) =
     (let i = \<lfloor>\<bar>a\<bar>\<rfloor>; f = \<bar>a\<bar> - of_int i
      in (if a < 0 then ''-'' else '''') @ nat_digits (nat i) @
         (if f = 0 then '''' else ''.'' @ frac_digits 20 f))"

fun ToString :: "jsval \<Rightarrow> string" where
  "ToString Undefined = ''undefined''"
| "ToString (JStr s) = s"
| "ToString (JNum a) = toString a"

subsection \<open>String to number\<close>

definition is_space :: "char \<Rightarrow> bool" where
  "is_space c = (of_char c \<in> {9, 10, 11, 12, 13, 32, 160 :: nat})"

definition is_digit :: "char \<Rightarrow> bool" where
  "is_digit c = (48 \<le> (of_char c :: nat) \<and> (of_char c :: nat) \<le> 57)"

definition digit_of :: "char \<Rightarrow> nat" where
  "digit_of c = of_char c - 48"

definition dec_of :: "string \<Rightarrow> nat" where
  "dec_of ds = foldl (\<lambda>n c. 10 * n + digit_of c) 0 ds"

definition trim :: "string \<Rightarrow> string" where
  "trim s = rev (dropWhile is_space (rev (dropWhile is_space s)))"

text \<open>An exponent part \<^verbatim>\<open>e[+-]digits\<close> at the head of a string, and what follows it.\<close>

definition scan_exponent :: "string \<Rightarrow> (int \<times> string) option" where
  "scan_exponent s =
     (case s of
        [] \<Rightarrow> None
      | c # r \<Rightarrow>
          if c = CHR ''e'' \<or> c = CHR ''E'' then
            (let (sg, r') =
                   (case r of
                      [] \<Rightarrow> (1, r)
                    | x # t \<Rightarrow> if x = CHR ''+'' then (1, t)
                               else if x = CHR ''-'' then (- 1, t) else (1, r));
                 ds = takeWhile is_digit r'
             in if ds = [] then None
                else Some (sg * int (dec_of ds), dropWhile is_digit r'))
          else None)"

definition scale10 :: "rat \<Rightarrow> int \<Rightarrow> rat" where
  "scale10 a e = (if 0 \<le> e then a * 10 ^ nat e else a / 10 ^ nat (- e))"

text \<open>
  The longest prefix that is an unsigned decimal literal of the language
  (\<^verbatim>\<open>Infinity\<close>, \<^verbatim>\<open>12\<close>, \<^verbatim>\<open>12.\<close>, \<^verbatim>\<open>12.5\<close>, \<^verbatim>\<open>.5\<close>, each but the first with an optional
  exponent), its value and the rest of the string.
\<close>

definition scan_unsigned_decimal :: "string \<Rightarrow> (jsnum \<times> string) option" where
  "scan_unsigned_decimal s =
     (if take 8 s = ''Infinity'' then Some (PInf, drop 8 s)
      else
        (let ip = takeWhile is_digit s;
             r1 = dropWhile is_digit s;
             (fp, r2) =
               (case r1 of
                  [] \<Rightarrow> ([], r1)
                | x # t \<Rightarrow>
                    if x = CHR ''.'' \<and> (ip \<noteq> [] \<or> takeWhile is_digit t \<noteq> [])
                    then (takeWhile is_digit t, dropWhile is_digit t)
                    else ([], r1))
         in if ip = [] \<and> fp = [] then None
            else
              (let mant = of_nat (dec_of ip) + of_nat (dec_of fp) / 10 ^ length fp;
                   (e, r3) = (case scan_exponent r2 of None \<Rightarrow> (0, r2) | Some er \<Rightarrow> er)
               in Some (Fin (scale10 mant e), r3))))"

definition strip_sign :: "string \<Rightarrow> bool \<times> string" where
  "strip_sign s =
     (case s of
        [] \<Rightarrow> (False, s)
      | x # t \<Rightarrow> if x = CHR ''+'' then (False, t)
                 else if x = CHR ''-'' then (True, t) else (False, s))"

text \<open>The value of a character as a digit of the given radix.\<close>

definition radix_digit :: "nat \<Rightarrow> char \<Rightarrow> nat option" where
  "radix_digit r c =
     (let n = (of_char c :: nat);
          v = (if 48 \<le> n \<and> n \<le> 57 then n - 48
               else if 97 \<le> n \<and> n \<le> 102 then n - 87
               else if 65 \<le> n \<and> n \<le> 70 then n - 55 else 16)
      in if v < r then Some v else None)"

text \<open>\<^verbatim>\<open>0x..\<close>, \<^verbatim>\<open>0o..\<close> and \<^verbatim>\<open>0b..\<close> literals, which \<^verbatim>\<open>Number\<close> accepts unsigned.\<close>

definition radix_literal :: "string \<Rightarrow> nat option" where
  "radix_literal t =
     (case t of
        z # x # ds \<Rightarrow>
          (let r = (if x = CHR ''x'' \<or> x = CHR ''X'' then 16
                    else if x = CHR ''o'' \<or> x = CHR ''O'' then 8
                    else if x = CHR ''b'' \<or> x = CHR ''B'' then 2 else (0::nat))
           in if z = CHR ''0'' \<and> r \<noteq> 0 \<and> ds \<noteq> [] \<and> list_all (\<lambda>c. radix_digit r c \<noteq> None) ds
              then Some (foldl (\<lambda>n c. r * n + the (radix_digit r c)) 0 ds)
              else None)
      | _ \<Rightarrow> None)"

text \<open>
  \<^verbatim>\<open>Number(s)\<close> on a string: white space is trimmed at both ends, the empty string is
  \<open>0\<close>, and anything that is not a numeric literal from end to end is NaN.
\<close>

definition Number :: "string \<Rightarrow> jsnum" where
  "Number s =
     (let t = trim s
      in if t = [] then Fin 0
         else
           (case radix_literal t of
              Some n \<Rightarrow> Fin (of_nat n)
            | None \<Rightarrow>
                (let (neg, u) = strip_sign t
                 in (case scan_unsigned_decimal u of
                       None \<Rightarrow> NaN
                     | Some (v, rest) \<Rightarrow>
                         if rest = [] then (if neg then js_neg v else v) else NaN))))"

text \<open>
  \<^verbatim>\<open>parseFloat(x)\<close>: the argument is converted to a string, leading white space is
  skipped, and the longest decimal literal at the head is read; NaN if there is none.
\<close>

definition parseFloat :: "jsval \<Rightarrow> jsnum" where
  "parseFloat x =
     (let (neg, u) = strip_sign (dropWhile is_space (ToString x))
      in (case scan_unsigned_decimal u of
            None \<Rightarrow> NaN
          | Some (v, rest) \<Rightarrow> if neg then js_neg v else v))"

section \<open>The period segmenter\<close>

subsection \<open>Calendar\<close>

text \<open>\<open>ToIntegerOrInfinity\<close> on a finite value: truncation towards zero.\<close>

definition trunc :: "rat \<Rightarrow> int" where
  "trunc a = (if a < 0 then - \<lfloor>- a\<rfloor> else \<lfloor>a\<rfloor>)"

definition leap :: "int \<Rightarrow> bool" where
  "leap y = (y mod 4 = 0 \<and> (y mod 100 \<noteq> 0 \<or> y mod 400 = 0))"

text \<open>The length of month \<open>m\<close> (\<open>0\<close> is January) of year \<open>y\<close> in the Gregorian calendar.\<close>

definition month_length :: "int \<Rightarrow> int \<Rightarrow> int" where
  "month_length y m =
     (if m = 1 then (if leap y then 29 else 28)
      else if m = 3 \<or> m = 5 \<or> m = 8 \<or> m = 10 then 30 else 31)"

text \<open>The day number of 1 January of year \<open>y\<close>, counted from 1 January 1970.\<close>

definition DayFromYear :: "int \<Rightarrow> int" where
  "DayFromYear y =
     365 * (y - 1970) + (y - 1969) div 4 - (y - 1901) div 100 + (y - 1601) div 400"

text \<open>The number of days of year \<open>y\<close> before its month \<open>m\<close>, for \<open>0 \<le> m \<le> 11\<close>.\<close>

definition days_before_month :: "int \<Rightarrow> int \<Rightarrow> int" where
  "days_before_month y m =
     [0, 31, 59, 90, 120, 151, 181, 212, 243, 273, 304, 334] ! nat m +
     (if leap y \<and> 2 \<le> m then 1 else 0)"

text \<open>
  \<^verbatim>\<open>const getDaysInMonth = (year, month) => new Date(year, month + 1, 0).getDate();\<close>

  The \<^verbatim>\<open>Date\<close> constructor truncates its arguments, reads a year from 0 to 99 as
  1900 to 1999, and normalises the month into the year (month 12 is January of the next
  year, month \<open>-1\<close> December of the previous one). Day \<open>0\<close> of a month is the last day of
  the month before, whose day of month \<^verbatim>\<open>getDate\<close> returns. A date further than
  \<open>10^8\<close> days from 1 January 1970 is invalid, and so is one built from a NaN or an
  infinity: \<^verbatim>\<open>getDate\<close> is then NaN. The model reads local time as UTC.
\<close>

definition getDaysInMonth :: "jsnum \<Rightarrow> jsnum \<Rightarrow> jsnum" where
  "getDaysInMonth year month =
     (case (year, js_add month (Fin 1)) of
        (Fin y, Fin m1) \<Rightarrow>
          (let yi = trunc y;
               yr = (if 0 \<le> yi \<and> yi \<le> 99 then 1900 + yi else yi);
               mi = trunc m1;
               ym = yr + mi div 12;
               mn = mi mod 12;
               day = DayFromYear ym + days_before_month ym mn - 1
           in if \<bar>day\<bar> > 100000000 then NaN
              else Fin (of_int (if mn = 0 then month_length (ym - 1) 11
                                else month_length ym (mn - 1))))
      | _ \<Rightarrow> NaN)"

subsection \<open>Parsing the two dates\<close>

text \<open>
  An array element read by index or by destructuring. An absent element is
  \<^verbatim>\<open>undefined\<close>; \<^verbatim>\<open>getPeriods\<close> uses the elements only where \<^verbatim>\<open>undefined\<close> behaves as
  NaN does (\<^verbatim>\<open>!x\<close>, \<^verbatim>\<open>isNaN(x)\<close>, \<^verbatim>\<open>x - 1\<close>, \<^verbatim>\<open>x > 1\<close>, \<^verbatim>\<open>x < n\<close>), so it is read as NaN.
\<close>

definition elem :: "jsnum list \<Rightarrow> nat \<Rightarrow> jsnum" where
  "elem parts i = (if i < length parts then parts ! i else NaN)"

text \<open>
  \<^verbatim>\<open>
  const parseDate = (str) => {
    if (typeof str !== 'string') return [0, 0, 0];
    if (str.includes('-')) {
      const parts = str.split('-').map(Number);
      if (parts[0] > 1000) return parts; // YYYY-MM-DD
      return [parts[2], parts[1], parts[0]]; // DD-MM-YYYY fallback
    }
    if (str.includes('/')) {
      const parts = str.split('/').map(Number);
      return [parts[2], parts[1], parts[0]]; // DD/MM/YYYY
    }
    return [0, 0, 0];
  };\<close>
\<close>

definition parseDate :: "jsval \<Rightarrow> jsnum list" where
  "parseDate v =
     (case v of
        JStr str \<Rightarrow>
          if str_includes str CHR ''-'' then
            (let parts = map Number (split CHR ''-'' str)
             in if js_gt (elem parts 0) (Fin 1000) then parts
                else [elem parts 2, elem parts 1, elem parts 0])
          else if str_includes str CHR ''/'' then
            (let parts = map Number (split CHR ''/'' str)
             in [elem parts 2, elem parts 1, elem parts 0])
          else [Fin 0, Fin 0, Fin 0]
      | _ \<Rightarrow> [Fin 0, Fin 0, Fin 0])"

subsection \<open>The loop over the months\<close>

record period =
  start :: string
  "end" :: string

text \<open>
  \<^verbatim>\<open>const fmt = (d) =>
     `${currentY}-${String(currentM + 1).padStart(2, '0')}-${String(d).padStart(2, '0')}`;\<close>
\<close>

definition fmt :: "jsnum \<Rightarrow> jsnum \<Rightarrow> jsnum \<Rightarrow> string" where
  "fmt currentY currentM d =
     toString currentY @ ''-'' @ padStart2 (toString (js_add currentM (Fin 1))) @ ''-'' @
     padStart2 (toString d)"

text \<open>
  The body of the loop up to the advance: the periods pushed for the month
  \<open>(currentY, currentM)\<close>. The payroll type is the string the caller passes; every
  value other than \<^verbatim>\<open>'mensual'\<close> takes the \<^verbatim>\<open>quincenal\<close> branch.
\<close>

definition month_periods ::
  "jsnum \<Rightarrow> jsnum \<Rightarrow> jsnum \<Rightarrow> jsnum \<Rightarrow> jsnum \<Rightarrow> jsnum \<Rightarrow> string \<Rightarrow> jsnum \<Rightarrow> jsnum \<Rightarrow> period list"
where
  "month_periods sY startMonthIndex sD eY endMonthIndex eD type currentY currentM =
     (let daysInMonth = getDaysInMonth currentY currentM;
          atStart = (js_seq currentY sY \<and> js_seq currentM startMonthIndex);
          atEnd = (js_seq currentY eY \<and> js_seq currentM endMonthIndex)
      in if type = ''mensual'' then
           (let isFull = True;
                isFull = (if atStart \<and> js_gt sD (Fin 1) then False else isFull);
                isFull = (if atEnd \<and> js_lt eD daysInMonth then False else isFull)
            in if isFull
               then [\<lparr>start = fmt currentY currentM (Fin 1),
                      end = fmt currentY currentM daysInMonth\<rparr>]
               else [])
         else
           (let q1Valid = True;
                q1Valid = (if atStart \<and> js_gt sD (Fin 1) then False else q1Valid);
                q1Valid = (if atEnd \<and> js_lt eD (Fin 15) then False else q1Valid);
                q2Valid = True;
                q2Valid = (if atStart \<and> js_gt sD (Fin 16) then False else q2Valid);
                q2Valid = (if atEnd \<and> js_lt eD daysInMonth then False else q2Valid)
            in (if q1Valid
                then [\<lparr>start = fmt currentY currentM (Fin 1),
                       end = fmt currentY currentM (Fin 15)\<rparr>]
                else []) @
               (if q2Valid
                then [\<lparr>start = fmt currentY currentM (Fin 16),
                       end = fmt currentY currentM daysInMonth\<rparr>]
                else [])))"

text \<open>
  \<^verbatim>\<open>currentM++; if (currentM > 11) { currentM = 0; currentY++; }\<close>
\<close>

definition advance :: "jsnum \<times> jsnum \<Rightarrow> jsnum \<times> jsnum" where
  "advance ym =
     (let currentY = fst ym; currentM = js_add (snd ym) (Fin 1)
      in if js_gt currentM (Fin 11) then (js_add currentY (Fin 1), Fin 0)
         else (currentY, currentM))"

text \<open>
  \<^verbatim>\<open>while (currentY < eY || (currentY === eY && currentM <= endMonthIndex))\<close>
\<close>

definition loop_cond :: "jsnum \<Rightarrow> jsnum \<Rightarrow> jsnum \<Rightarrow> jsnum \<Rightarrow> bool" where
  "loop_cond eY endMonthIndex currentY currentM =
     (js_lt currentY eY \<or> (js_seq currentY eY \<and> js_le currentM endMonthIndex))"

text \<open>
  The \<^verbatim>\<open>while\<close> loop. Nothing in the source bounds the number of iterations, so the
  loop is a partial function: \<open>None\<close> is a run that never leaves the loop.
\<close>

partial_function (option) getPeriods_loop ::
  "jsnum \<Rightarrow> jsnum \<Rightarrow> jsnum \<Rightarrow> jsnum \<Rightarrow> jsnum \<Rightarrow> jsnum \<Rightarrow> string \<Rightarrow> jsnum \<times> jsnum \<Rightarrow> period list
     \<Rightarrow> period list option"
where
  "getPeriods_loop sY startMonthIndex sD eY endMonthIndex eD type ym periods =
     (if loop_cond eY endMonthIndex (fst ym) (snd ym)
      then getPeriods_loop sY startMonthIndex sD eY endMonthIndex eD type (advance ym)
             (periods @
              month_periods sY startMonthIndex sD eY endMonthIndex eD type (fst ym) (snd ym))
      else Some periods)"

text \<open>
  \<^verbatim>\<open>getPeriods(startStr, endStr, type)\<close>: the guard on missing dates, the two parses, the
  validation of the years, and the loop from the start month.
\<close>

definition getPeriods :: "jsval \<Rightarrow> jsval \<Rightarrow> string \<Rightarrow> period list option" where
  "getPeriods startStr endStr type =
     (if \<not> truthy startStr \<or> \<not> truthy endStr then Some []
      else
        (let s = parseDate startStr; sY = elem s 0; sM = elem s 1; sD = elem s 2;
             e = parseDate endStr; eY = elem e 0; eM = elem e 1; eD = elem e 2
         in if \<not> num_truthy sY \<or> \<not> num_truthy eY \<or> js_isNaN sY \<or> js_isNaN eY then Some []
            else
              (let startMonthIndex = js_sub sM (Fin 1);
                   endMonthIndex = js_sub eM (Fin 1)
               in getPeriods_loop sY startMonthIndex sD eY endMonthIndex eD type
                    (sY, startMonthIndex) [])))"

section \<open>The adjustment calculator\<close>

text \<open>
  An input row is a plain object read by property name; a property that is absent reads
  as \<^verbatim>\<open>undefined\<close>.
\<close>

type_synonym jsobj = "string \<Rightarrow> jsval"

text \<open>
  \<^verbatim>\<open>const FACTORS = { HED: 1.25, HEN: 1.75, HEFD: 2.05, HEFN: 2.55, RN: 0.35 };\<close>
\<close>

record factors =
  HED :: jsnum
  HEN :: jsnum
  HEFD :: jsnum
  HEFN :: jsnum
  RN :: jsnum

definition FACTORS :: factors where
  "FACTORS = \<lparr>HED = Fin 1.25, HEN = Fin 1.75, HEFD = Fin 2.05, HEFN = Fin 2.55, RN = Fin 0.35\<rparr>"

record otType =
  key :: string
  factor :: jsnum
  label :: string
  reportValKey :: string
  reportQtyKey :: string

definition otMapping :: "otType list" where
  "otMapping =
     [\<lparr>key = ''HED_CANTIDAD'', factor = HED FACTORS, label = ''Retroactivo HE diurna'',
       reportValKey = ''Devengos Prestacionales - Hora Extra Diurna Ordinaria (1.25)'',
       reportQtyKey = ''Comprobante - Hora Extra Diurna Ordinaria (1.25)''\<rparr>,
      \<lparr>key = ''HEN_CANTIDAD'', factor = HEN FACTORS, label = ''Retroactivo HE nocturna'',
       reportValKey = ''Devengos Prestacionales - Hora Extra Nocturna (1.75)'',
       reportQtyKey = ''Comprobante - Hora Extra Nocturna (1.75)''\<rparr>,
      \<lparr>key = ''HEFD_CANTIDAD'', factor = HEFD FACTORS,
       label = ''Retroactivo HE festiva diurna'',
       reportValKey =
         ''Devengos Prestacionales - Hora Extra Diurna Dominical Y Festivos (2.05)'',
       reportQtyKey = ''Comprobante - Hora Extra Diurna Dominical y Festivos (2.05)''\<rparr>,
      \<lparr>key = ''HEFN_CANTIDAD'', factor = HEFN FACTORS,
       label = ''Retroactivo HE festiva nocturna'',
       reportValKey =
         ''Devengos Prestacionales - Hora Extra Nocturna Dominical Y Festivos (2.55)'',
       reportQtyKey = ''Comprobante - Hora Extra Nocturna Dominical Y Festivos (2.55)''\<rparr>]"

text \<open>An itemised payment line.\<close>

record detail =
  CEDULA :: jsval
  NOMBRE :: jsval
  CONCEPTO :: string
  DETALLE :: string
  VALOR_A_PAGAR :: jsnum

text \<open>
  A summary row is an object whose properties are assigned by computed name
  (\<^verbatim>\<open>summary[type.reportValKey] = roundedVal\<close>): an association list in the order of
  creation. Assigning an existing property replaces its value in place, assigning a new
  one appends it.
\<close>

type_synonym summary = "(string \<times> jsval) list"

fun set_prop :: "string \<Rightarrow> jsval \<Rightarrow> summary \<Rightarrow> summary" where
  "set_prop k v [] = [(k, v)]"
| "set_prop k v (kv # rest) =
     (if fst kv = k then (k, v) # rest else kv # set_prop k v rest)"

definition get_prop :: "summary \<Rightarrow> string \<Rightarrow> jsval" where
  "get_prop obj k = (case map_of obj k of None \<Rightarrow> Undefined | Some v \<Rightarrow> v)"

text \<open>The names of the three properties that carry an accented letter.\<close>

definition key_periodo :: string where
  "key_periodo = ''Comprobante - Per'' @ [CHR 0xED] @ ''odo''"

definition key_documento :: string where
  "key_documento = ''Colaborador - N'' @ [CHR 0xFA] @ ''mero de Documento''"

definition key_ficha :: string where
  "key_ficha = ''Colaborador - C'' @ [CHR 0xF3] @ ''digo de Ficha''"

definition key_salario :: string where
  "key_salario = ''Devengos Prestacionales - Salario''"

text \<open>The summary row as the loop body creates it, every amount and quantity at zero.\<close>

definition new_summary :: "jsobj \<Rightarrow> string \<Rightarrow> summary" where
  "new_summary data formattedStartDate =
     [(key_periodo, JStr formattedStartDate),
      (''Colaborador - Nombre Completo'', data ''NOMBRE''),
      (key_documento, data ''CEDULA''),
      (key_ficha,
         (if truthy (data ''CODIGO_FICHA_COLABORADOR'') then data ''CODIGO_FICHA_COLABORADOR''
          else JStr [])),
      (key_salario, JNum (Fin 0)),
      (''Devengos Prestacionales - Hora Extra Diurna Dominical Y Festivos (2.05)'',
         JNum (Fin 0)),
      (''Comprobante - Hora Extra Diurna Dominical y Festivos (2.05)'', JNum (Fin 0)),
      (''Devengos Prestacionales - Hora Extra Diurna Ordinaria (1.25)'', JNum (Fin 0)),
      (''Comprobante - Hora Extra Diurna Ordinaria (1.25)'', JNum (Fin 0)),
      (''Devengos Prestacionales - Hora Extra Nocturna (1.75)'', JNum (Fin 0)),
      (''Comprobante - Hora Extra Nocturna (1.75)'', JNum (Fin 0)),
      (''Devengos Prestacionales - Hora Extra Nocturna Dominical Y Festivos (2.55)'',
         JNum (Fin 0)),
      (''Comprobante - Hora Extra Nocturna Dominical Y Festivos (2.55)'', JNum (Fin 0))]"

text \<open>
  A piece of \<^verbatim>\<open>period.start.split('-')\<close> read by destructuring and spliced into a
  template literal: an absent piece is \<^verbatim>\<open>undefined\<close> and prints as such.
\<close>

definition piece :: "string list \<Rightarrow> nat \<Rightarrow> string" where
  "piece parts i = (if i < length parts then parts ! i else ''undefined'')"

text \<open>
  \<^verbatim>\<open>const [pY, pM, pD] = period.start.split('-');
  const formattedStartDate = `${pD}/${pM}/${pY}`;\<close>
\<close>

definition formattedStartDate :: "period \<Rightarrow> string" where
  "formattedStartDate p =
     (let parts = split CHR ''-'' (start p)
      in piece parts 2 @ ''/'' @ piece parts 1 @ ''/'' @ piece parts 0)"

text \<open>
  One round of \<^verbatim>\<open>otMapping.forEach(type => ...)\<close>, on the detail lines and the
  summary row of the first period.
\<close>

definition ot_step :: "jsobj \<Rightarrow> jsnum \<Rightarrow> otType \<Rightarrow> detail list \<times> summary \<Rightarrow> detail list \<times> summary"
where
  "ot_step data hourlyDiff type st =
     (let details = fst st; summary = snd st;
          qty = or_zero (parseFloat (data (key type)))
      in if js_gt qty (Fin 0) then
           (let value = js_mul (js_mul hourlyDiff (factor type)) qty
            in if js_gt value (Fin 0) then
                 (let roundedVal = Math_round value;
                      summary =
                        (if reportValKey type \<noteq> [] then
                           set_prop (reportQtyKey type) (JNum qty)
                             (set_prop (reportValKey type) (JNum roundedVal) summary)
                         else summary)
                  in (details @
                      [\<lparr>CEDULA = data ''CEDULA'', NOMBRE = data ''NOMBRE'',
                        CONCEPTO = label type, DETALLE = toString qty @ '' horas'',
                        VALOR_A_PAGAR = roundedVal\<rparr>],
                      summary))
               else st)
         else st)"

text \<open>
  One round of \<^verbatim>\<open>periods.forEach((period, index) => ...)\<close>, on the two arrays
  \<^verbatim>\<open>details\<close> and \<^verbatim>\<open>summaries\<close>.
\<close>

definition period_step ::
  "jsobj \<Rightarrow> jsnum \<Rightarrow> jsnum \<Rightarrow> nat \<times> period \<Rightarrow> detail list \<times> summary list
     \<Rightarrow> detail list \<times> summary list"
where
  "period_step data retroSalaryPerPeriod hourlyDiff ip st =
     (let index = fst ip; p = snd ip;
          details = fst st; summaries = snd st;
          summary = new_summary data (formattedStartDate p);
          (details, summary) =
            (if js_gt retroSalaryPerPeriod (Fin 0) then
               (let val = Math_round retroSalaryPerPeriod
                in (details @
                    [\<lparr>CEDULA = data ''CEDULA'', NOMBRE = data ''NOMBRE'',
                      CONCEPTO = ''Retroactivo sueldo'',
                      DETALLE = ''Periodo '' @ formattedStartDate p,
                      VALOR_A_PAGAR = val\<rparr>],
                    set_prop key_salario (JNum val) summary))
             else (details, summary));
          (details, summary) =
            (if index = 0 then fold (ot_step data hourlyDiff) otMapping (details, summary)
             else (details, summary))
      in (details, summaries @ [summary]))"

record result =
  details :: "detail list"
  summaries :: "summary list"

text \<open>
  \<^verbatim>\<open>calculateRetroactive(data, payrollType)\<close>. It returns no value when the loop of
  \<^verbatim>\<open>getPeriods\<close> does not end.
\<close>

definition calculateRetroactive :: "jsobj \<Rightarrow> string \<Rightarrow> result option" where
  "calculateRetroactive data payrollType =
     (let oldSalary = or_zero (parseFloat (data ''SUELDO_ANTERIOR''));
          newSalary = or_zero (parseFloat (data ''SUELDO_NUEVO''))
      in case getPeriods (data ''FECHA_INICIO'') (data ''FECHA_FIN'') payrollType of
           None \<Rightarrow> None
         | Some periods \<Rightarrow>
             if length periods = 0 then Some \<lparr>details = [], summaries = []\<rparr>
             else
               (let baseDiff = js_sub newSalary oldSalary;
                    salaryFactor = (if payrollType = ''mensual'' then Fin 1 else Fin 0.5);
                    retroSalaryPerPeriod = js_mul baseDiff salaryFactor;
                    hourlyDiff = js_div baseDiff (Fin 240);
                    st = fold (period_step data retroSalaryPerPeriod hourlyDiff)
                           (enumerate 0 periods) ([], [])
                in Some \<lparr>details = fst st, summaries = snd st\<rparr>))"

section \<open>Reference definitions for the claims\<close>

text \<open>
  The definitions of this section are not part of the program. They restate, in the words
  of the specification, what the segmenter is claimed to return, for dates given by
  integer year, month number (1 to 12) and day.
\<close>

abbreviation Jint :: "int \<Rightarrow> jsnum" where
  "Jint i \<equiv> Fin (of_int i)"

text \<open>The last calendar day of month \<open>m\<close> (1 to 12) of year \<open>y\<close>.\<close>

definition last_day :: "int \<Rightarrow> int \<Rightarrow> int" where
  "last_day y m = month_length y (m - 1)"

text \<open>The text \<^verbatim>\<open>YYYY-MM-DD\<close> of a date, as the program writes it.\<close>

definition iso_date :: "int \<Rightarrow> int \<Rightarrow> int \<Rightarrow> string" where
  "iso_date y m d = fmt (Jint y) (Jint (m - 1)) (Jint d)"

text \<open>The period from day \<open>d1\<close> to day \<open>d2\<close> of month \<open>m\<close> of year \<open>y\<close>.\<close>

definition closed_period :: "int \<Rightarrow> int \<Rightarrow> int \<Rightarrow> int \<Rightarrow> period" where
  "closed_period y m d1 d2 = \<lparr>start = iso_date y m d1, end = iso_date y m d2\<rparr>"

text \<open>
  The calendar months from the start month to the end month inclusive, in order, as
  pairs of year and month number; none when the end month is before the start month.
\<close>

definition visited_months :: "int \<Rightarrow> int \<Rightarrow> int \<Rightarrow> int \<Rightarrow> (int \<times> int) list" where
  "visited_months sY sM eY eM =
     map (\<lambda>k. (k div 12, k mod 12 + 1)) [12 * sY + (sM - 1) .. 12 * eY + (eM - 1)]"



text \<open>
  Semi-monthly cycle: the first half of month \<open>(y, m)\<close> is emitted unless it is the start
  month and the start day is after 1, or it is the end month and the end day is before
  15; the second half unless it is the start month and the start day is after 16, or it
  is the end month and the end day is before the month's last day.
\<close>

definition first_half_emitted ::
  "int \<Rightarrow> int \<Rightarrow> int \<Rightarrow> int \<Rightarrow> int \<Rightarrow> int \<Rightarrow> int \<Rightarrow> int \<Rightarrow> bool" where
  "first_half_emitted sY sM sD eY eM eD y m =
     (\<not> ((y = sY \<and> m = sM \<and> sD > 1) \<or> (y = eY \<and> m = eM \<and> eD < 15)))"

definition second_half_emitted ::
  "int \<Rightarrow> int \<Rightarrow> int \<Rightarrow> int \<Rightarrow> int \<Rightarrow> int \<Rightarrow> int \<Rightarrow> int \<Rightarrow> bool" where
  "second_half_emitted sY sM sD eY eM eD y m =
     (\<not> ((y = sY \<and> m = sM \<and> sD > 16) \<or> (y = eY \<and> m = eM \<and> eD < last_day y m)))"

definition segment_semimonthly ::
  "int \<Rightarrow> int \<Rightarrow> int \<Rightarrow> int \<Rightarrow> int \<Rightarrow> int \<Rightarrow> period list" where
  "segment_semimonthly sY sM sD eY eM eD =
     concat (map (\<lambda>(y, m).
                    (if first_half_emitted sY sM sD eY eM eD y m
                     then [closed_period y m 1 15] else []) @
                    (if second_half_emitted sY sM sD eY eM eD y m
                     then [closed_period y m 16 (last_day y m)] else []))
               (visited_months sY sM eY eM))"

text \<open>
  The same month by month, with the tests of the program (\<open>sD > 1\<close>, \<open>eD < last day\<close>)
  in place of the equalities: what the monthly cycle returns for day numbers that are not
  calendar days.
\<close>

definition segment_monthly_tests ::
  "int \<Rightarrow> int \<Rightarrow> int \<Rightarrow> int \<Rightarrow> int \<Rightarrow> int \<Rightarrow> period list" where
  "segment_monthly_tests sY sM sD eY eM eD =
     concat (map (\<lambda>(y, m). if \<not> ((y = sY \<and> m = sM \<and> sD > 1) \<or>
                                  (y = eY \<and> m = eM \<and> eD < last_day y m))
                            then [closed_period y m 1 (last_day y m)] else [])
               (visited_months sY sM eY eM))"

text \<open>
  The periods as day intervals \<open>(y, m, d1, d2)\<close>: days \<open>d1\<close> to \<open>d2\<close> of month \<open>m\<close> of year
  \<open>y\<close>. \<open>period_days\<close> lists, month by month, the intervals the program emits for a
  payroll type; \<open>render\<close> writes an interval as the program's pair of texts.
\<close>

type_synonym day_interval = "int \<times> int \<times> int \<times> int"

definition render :: "day_interval \<Rightarrow> period" where
  "render q = (case q of (y, m, d1, d2) \<Rightarrow> closed_period y m d1 d2)"

definition period_days ::
  "string \<Rightarrow> int \<Rightarrow> int \<Rightarrow> int \<Rightarrow> int \<Rightarrow> int \<Rightarrow> int \<Rightarrow> day_interval list" where
  "period_days t sY sM sD eY eM eD =
     concat (map (\<lambda>(y, m).
                 if t = ''mensual'' then
                   (if \<not> ((y = sY \<and> m = sM \<and> sD > 1) \<or>
                           (y = eY \<and> m = eM \<and> eD < last_day y m))
                    then [(y, m, 1, last_day y m)] else [])
                 else
                   (if first_half_emitted sY sM sD eY eM eD y m
                    then [(y, m, 1, 15)] else []) @
                   (if second_half_emitted sY sM sD eY eM eD y m
                    then [(y, m, 16, last_day y m)] else []))
               (visited_months sY sM eY eM))"

text \<open>One interval lies wholly before another: it ends before the other starts.\<close>

definition precedes :: "day_interval \<Rightarrow> day_interval \<Rightarrow> bool" where
  "precedes p q =
     (case p of (y, m, d1, d2) \<Rightarrow>
        (case q of (y', m', d1', d2') \<Rightarrow>
           y < y' \<or> (y = y' \<and> (m < m' \<or> (m = m' \<and> d2 < d1')))))"

text \<open>An interval of calendar days of one month.\<close>

definition within_month :: "day_interval \<Rightarrow> bool" where
  "within_month q =
     (case q of (y, m, d1, d2) \<Rightarrow> 1 \<le> m \<and> m \<le> 12 \<and> 1 \<le> d1 \<and> d1 \<le> d2 \<and> d2 \<le> last_day y m)"

text \<open>An interval that is one of the two halves of its month.\<close>

definition half_month :: "day_interval \<Rightarrow> bool" where
  "half_month q =
     (case q of (y, m, d1, d2) \<Rightarrow> (d1 = 1 \<and> d2 = 15) \<or> (d1 = 16 \<and> d2 = last_day y m))"

text \<open>One month is before another.\<close>

definition month_before :: "int \<times> int \<Rightarrow> int \<times> int \<Rightarrow> bool" where
  "month_before p q = (fst p < fst q \<or> (fst p = fst q \<and> snd p < snd q))"

text \<open>
  The quantities of the calculation, under the names of the specification: the salary
  delta, the per-period salary amount, the hourly delta, and for an overtime category its
  parsed quantity and its amount before rounding.
\<close>

definition salaryDelta :: "jsobj \<Rightarrow> jsnum" where
  "salaryDelta data =
     js_sub (or_zero (parseFloat (data ''SUELDO_NUEVO'')))
            (or_zero (parseFloat (data ''SUELDO_ANTERIOR'')))"

definition periodFactor :: "string \<Rightarrow> jsnum" where
  "periodFactor t = (if t = ''mensual'' then Fin 1 else Fin 0.5)"

definition perPeriodSalary :: "jsobj \<Rightarrow> string \<Rightarrow> jsnum" where
  "perPeriodSalary data t = js_mul (salaryDelta data) (periodFactor t)"

definition hourlyDelta :: "jsobj \<Rightarrow> jsnum" where
  "hourlyDelta data = js_div (salaryDelta data) (Fin 240)"

definition quantity :: "jsobj \<Rightarrow> otType \<Rightarrow> jsnum" where
  "quantity data c = or_zero (parseFloat (data (key c)))"

definition overtime_amount :: "jsobj \<Rightarrow> otType \<Rightarrow> jsnum" where
  "overtime_amount data c = js_mul (js_mul (hourlyDelta data) (factor c)) (quantity data c)"

text \<open>What the program tests before it emits an overtime line: both values positive.\<close>

definition overtime_emitted :: "jsobj \<Rightarrow> otType \<Rightarrow> bool" where
  "overtime_emitted data c =
     (js_gt (quantity data c) (Fin 0) \<and> js_gt (overtime_amount data c) (Fin 0))"

definition overtime_line :: "jsobj \<Rightarrow> otType \<Rightarrow> detail" where
  "overtime_line data c =
     \<lparr>CEDULA = data ''CEDULA'', NOMBRE = data ''NOMBRE'', CONCEPTO = label c,
      DETALLE = toString (quantity data c) @ '' horas'',
      VALOR_A_PAGAR = Math_round (overtime_amount data c)\<rparr>"

definition salary_line :: "jsobj \<Rightarrow> string \<Rightarrow> period \<Rightarrow> detail" where
  "salary_line data t p =
     \<lparr>CEDULA = data ''CEDULA'', NOMBRE = data ''NOMBRE'', CONCEPTO = ''Retroactivo sueldo'',
      DETALLE = ''Periodo '' @ formattedStartDate p,
      VALOR_A_PAGAR = Math_round (perPeriodSalary data t)\<rparr>"

text \<open>
  The detail lines pushed in round \<open>i\<close> of the loop over the periods, for period \<open>p\<close>: the
  salary line, then, in the first round, the overtime lines in the order of the table.
\<close>

definition round_lines :: "jsobj \<Rightarrow> string \<Rightarrow> nat \<Rightarrow> period \<Rightarrow> detail list" where
  "round_lines data t i p =
     (if js_gt (perPeriodSalary data t) (Fin 0) then [salary_line data t p] else []) @
     (if i = 0
      then concat (map (\<lambda>c. if overtime_emitted data c then [overtime_line data c] else [])
                     otMapping)
      else [])"

text \<open>The two assignments an emitted overtime category makes to the summary row.\<close>

definition overtime_fields :: "jsobj \<Rightarrow> otType \<Rightarrow> summary \<Rightarrow> summary" where
  "overtime_fields data c sm =
     (if overtime_emitted data c \<and> reportValKey c \<noteq> []
      then set_prop (reportQtyKey c) (JNum (quantity data c))
             (set_prop (reportValKey c) (JNum (Math_round (overtime_amount data c))) sm)
      else sm)"

text \<open>The summary row pushed in round \<open>i\<close>.\<close>

definition round_summary :: "jsobj \<Rightarrow> string \<Rightarrow> nat \<Rightarrow> period \<Rightarrow> summary" where
  "round_summary data t i p =
     (let sm = new_summary data (formattedStartDate p);
          sm = (if js_gt (perPeriodSalary data t) (Fin 0)
                then set_prop key_salario (JNum (Math_round (perPeriodSalary data t))) sm
                else sm)
      in if i = 0 then fold (overtime_fields data) otMapping sm else sm)"

text \<open>The property names of the overtime categories in a list of categories.\<close>

definition report_keys :: "otType list \<Rightarrow> string list" where
  "report_keys cs = concat (map (\<lambda>c. [reportValKey c, reportQtyKey c]) cs)"

section \<open>Example rows\<close>

text \<open>
  A row as the import layer hands it over: the cells of a spreadsheet line by column
  name, each cell a string, a missing cell absent.
\<close>

definition row :: "(string \<times> string) list \<Rightarrow> jsobj" where
  "row cells k = (case map_of cells k of None \<Rightarrow> Undefined | Some s \<Rightarrow> JStr s)"

text \<open>A start date whose month is written as a word, and an end date in a later year.\<close>

definition row_month_word :: jsobj where
  "row_month_word =
     row [(''CEDULA'', ''1''), (''NOMBRE'', ''A''),
          (''SUELDO_ANTERIOR'', ''1000000''), (''SUELDO_NUEVO'', ''1100000''),
          (''FECHA_INICIO'', ''2024-ene-01''), (''FECHA_FIN'', ''2025-01-31'')]"



text \<open>
  The example of the specification: a raise from 1,000,000 to 1,100,000 over January and
  February 2024, with 10 hours of day overtime.
\<close>

definition row_two_months :: jsobj where
  "row_two_months =
     row [(''CEDULA'', ''1''), (''NOMBRE'', ''A''),
          (''SUELDO_ANTERIOR'', ''1000000''), (''SUELDO_NUEVO'', ''1100000''),
          (''FECHA_INICIO'', ''2024-01-01''), (''FECHA_FIN'', ''29/02/2024''),
          (''HED_CANTIDAD'', ''10'')]"

text \<open>January and February 2024 with the salary unchanged and no overtime.\<close>

definition row_no_raise :: jsobj where
  "row_no_raise =
     row [(''CEDULA'', ''1''), (''NOMBRE'', ''A''),
          (''SUELDO_ANTERIOR'', ''1000000''), (''SUELDO_NUEVO'', ''1000000''),
          (''FECHA_INICIO'', ''2024-01-01''), (''FECHA_FIN'', ''29/02/2024'')]"

section \<open>Properties\<close>

subsection \<open>Evaluation on concrete inputs\<close>

text \<open>The equations that the simplifier needs to run the model on a concrete input.\<close>

lemmas number_eval =
  Number_def trim_def is_space_def radix_literal_def radix_digit_def strip_sign_def
  scan_unsigned_decimal_def scan_exponent_def scale10_def is_digit_def dec_of_def digit_of_def
  parseFloat_def

lemmas string_eval = str_includes_def padStart2_def nat_digits.simps digit_char_def

lemmas parse_eval = parseDate_def elem_def js_gt_def number_eval string_eval

lemmas period_eval =
  visited_months_def closed_period_def iso_date_def fmt_def last_day_def month_length_def
  leap_def string_eval

lemma floor_numeral_div:
  "\<lfloor>numeral a / numeral b :: rat\<rfloor> = numeral a div numeral b"
  using floor_divide_of_int_eq [of "numeral a" "numeral b", where ?'a = rat] by simp

lemma js_add_Int: "js_add (Jint a) (Fin 1) = Jint (a + 1)"
  by simp

lemma js_sub_Int: "js_sub (Jint a) (Fin 1) = Jint (a - 1)"
  by (simp add: js_sub_def)

lemma js_lt_Int: "js_lt (Jint a) (Jint b) = (a < b)"
  by simp

lemma js_gt_Int: "js_gt (Jint a) (Jint b) = (b < a)"
  by (simp add: js_gt_def)

lemma js_seq_Int: "js_seq (Jint a) (Jint b) = (a = b)"
  by (simp add: js_seq_def)

lemma js_le_Int: "js_le (Jint a) (Jint b) = (a \<le> b)"
  by (auto simp: js_le_def js_seq_def)

lemma advance_Int:
  "advance (Jint y, Jint m) = (if 11 < m + 1 then (Jint (y + 1), Jint 0) else (Jint y, Jint (m + 1)))"
proof -
  have "js_gt (Jint (m + 1)) (Fin 11) = (11 < m + 1)"
    using js_gt_Int [of "m + 1" 11] by simp
  then show ?thesis
    by (simp add: advance_def Let_def)
qed

lemma loop_cond_Int:
  "loop_cond (Jint eY) (Jint eM) (Jint cY) (Jint cM) = (cY < eY \<or> (cY = eY \<and> cM \<le> eM))"
  unfolding loop_cond_def js_lt_Int js_seq_Int js_le_Int ..

lemma loop_cond_months:
  assumes "0 \<le> cM" "cM \<le> 11" "0 \<le> eM" "eM \<le> 11"
  shows "loop_cond (Jint eY) (Jint eM) (Jint cY) (Jint cM) = (12 * cY + cM \<le> 12 * eY + eM)"
  unfolding loop_cond_Int using assms by auto

lemma getPeriods_loop_months:
  assumes "0 \<le> cM" "cM \<le> 11" "0 \<le> eM" "eM \<le> 11"
  shows "getPeriods_loop sY sMi sD (Jint eY) (Jint eM) eD t (Jint cY, Jint cM) acc =
         Some (acc @ concat (map (\<lambda>k. month_periods sY sMi sD (Jint eY) (Jint eM) eD t
                                       (Jint (k div 12)) (Jint (k mod 12)))
                                [12 * cY + cM .. 12 * eY + eM]))"
  using assms(1,2)
proof (induction "nat (12 * eY + eM + 1 - (12 * cY + cM))" arbitrary: cY cM acc)
  case 0
  then have "\<not> 12 * cY + cM \<le> 12 * eY + eM" by simp
  then show ?case
    using loop_cond_months [OF "0.prems" assms(3,4), of eY cY]
    by (subst getPeriods_loop.simps) simp
next
  case (Suc n)
  let ?k = "12 * cY + cM"
  have le: "?k \<le> 12 * eY + eM" using Suc.hyps(2) by simp
  have cond: "loop_cond (Jint eY) (Jint eM) (Jint cY) (Jint cM)"
    using loop_cond_months [OF Suc.prems assms(3,4), of eY cY] le by simp
  have dm: "?k div 12 = cY" "?k mod 12 = cM" using Suc.prems by auto
  have upto: "[?k .. 12 * eY + eM] = ?k # [?k + 1 .. 12 * eY + eM]"
    using le by (simp add: upto_rec1)
  show ?case
  proof (cases "cM = 11")
    case True
    have adv: "advance (Jint cY, Jint cM) = (Jint (cY + 1), Jint 0)"
      using advance_Int [of cY cM] True by simp
    have n: "n = nat (12 * eY + eM + 1 - (12 * (cY + 1) + 0))"
      using Suc.hyps(2) True by simp
    have k': "12 * (cY + 1) + 0 = ?k + 1" using True by simp
    show ?thesis
      apply (subst getPeriods_loop.simps)
      apply (simp only: fst_conv snd_conv cond if_True adv)
      apply (subst Suc.hyps(1) [OF n])
      apply simp
      apply simp
      apply (simp only: k' upto dm list.map concat.simps append_assoc)
      done
  next
    case False
    have adv: "advance (Jint cY, Jint cM) = (Jint cY, Jint (cM + 1))"
      using advance_Int [of cY cM] False Suc.prems by simp
    have n: "n = nat (12 * eY + eM + 1 - (12 * cY + (cM + 1)))"
      using Suc.hyps(2) by simp
    have k': "12 * cY + (cM + 1) = ?k + 1" by simp
    show ?thesis
      apply (subst getPeriods_loop.simps)
      apply (simp only: fst_conv snd_conv cond if_True adv)
      apply (subst Suc.hyps(1) [OF n])
      using Suc.prems False apply simp
      using Suc.prems False apply simp
      apply (simp only: k' upto dm list.map concat.simps append_assoc)
      done
  qed
qed

lemma trunc_of_int: "trunc (of_int i) = i"
  by (simp add: trunc_def)

lemma leap_1900:
  assumes "1 \<le> y" "y \<le> 99"
  shows "leap (1900 + y) = leap y"
proof -
  have m4: "(1900 + y) mod 4 = y mod 4"
    using mod_mult_self4 [of 4 475 y] by simp
  have m100: "(1900 + y) mod 100 = y" "y mod 100 = y"
    using mod_mult_self4 [of 100 19 y] assms by simp_all
  show ?thesis
    unfolding leap_def m4 m100 using assms by simp
qed

lemma month_length_1900: "1 \<le> y \<Longrightarrow> y \<le> 99 \<Longrightarrow> month_length (1900 + y) m = month_length y m"
  by (simp add: month_length_def leap_1900)

lemma month_length_bounds: "28 \<le> month_length y m" "month_length y m \<le> 31"
  by (simp_all add: month_length_def)

lemma days_before_month_bounds:
  assumes "0 \<le> m" "m \<le> 11"
  shows "0 \<le> days_before_month y m" "days_before_month y m \<le> 335"
proof -
  from assms have "m = 0 \<or> m = 1 \<or> m = 2 \<or> m = 3 \<or> m = 4 \<or> m = 5 \<or> m = 6 \<or> m = 7 \<or> m = 8
     \<or> m = 9 \<or> m = 10 \<or> m = 11" by arith
  then show "0 \<le> days_before_month y m" "days_before_month y m \<le> 335"
    by (auto simp: days_before_month_def)
qed

lemma div_bracket:
  fixes a :: int
  shows "0 < b \<Longrightarrow> b * (a div b) \<le> a \<and> a < b * (a div b) + b"
  by (metis add.commute mult.commute pos_mod_bound mult_div_mod_eq add_strict_left_mono
        add.right_neutral pos_mod_sign add_le_cancel_left le_add_same_cancel1)

lemma DayFromYear_bounds:
  assumes "1 \<le> y" "y \<le> 275002"
  shows "- 800000 \<le> DayFromYear y" "DayFromYear y \<le> 99800000"
proof -
  define d4 where "d4 = (y - 1969) div 4"
  define d100 where "d100 = (y - 1901) div 100"
  define d400 where "d400 = (y - 1601) div 400"
  have a: "4 * d4 \<le> y - 1969" "y - 1969 < 4 * d4 + 4"
    using div_bracket [of 4 "y - 1969"] by (simp_all add: d4_def)
  have b: "100 * d100 \<le> y - 1901" "y - 1901 < 100 * d100 + 100"
    using div_bracket [of 100 "y - 1901"] by (simp_all add: d100_def)
  have c: "400 * d400 \<le> y - 1601" "y - 1601 < 400 * d400 + 400"
    using div_bracket [of 400 "y - 1601"] by (simp_all add: d400_def)
  have eq: "DayFromYear y = 365 * (y - 1970) + d4 - d100 + d400"
    by (simp add: DayFromYear_def d4_def d100_def d400_def)
  show "- 800000 \<le> DayFromYear y"
  proof -
    have "400 * d4 > 100 * y - 197300" using a(2) by simp
    moreover have "- 400 * d100 \<ge> - 4 * y + 7604" using b(1) by simp
    moreover have "400 * d400 > y - 2001" using c(2) by simp
    ultimately have "400 * (d4 - d100 + d400) > 97 * y - 191697" by simp
    then have "400 * (365 * (y - 1970) + d4 - d100 + d400) > 146097 * y - 287811697"
      by simp
    then have "400 * (365 * (y - 1970) + d4 - d100 + d400) > 400 * (- 800000)"
      using assms(1) by simp
    then show ?thesis unfolding eq by simp
  qed
  show "DayFromYear y \<le> 99800000"
  proof -
    have "400 * d4 \<le> 100 * y - 196900" using a(1) by simp
    moreover have "- 400 * d100 < - 4 * y + 8004" using b(2) by simp
    moreover have "400 * d400 \<le> y - 1601" using c(1) by simp
    ultimately have "400 * (d4 - d100 + d400) < 97 * y - 190497" by simp
    then have "400 * (365 * (y - 1970) + d4 - d100 + d400) < 146097 * y - 287810497"
      by simp
    then have "400 * (365 * (y - 1970) + d4 - d100 + d400) < 400 * 99800000"
      using assms(2) by simp
    then show ?thesis unfolding eq by simp
  qed
qed

lemma getDaysInMonth_Int:
  assumes "0 \<le> m" "m \<le> 11" "1 \<le> y" "y \<le> 275000"
  shows "getDaysInMonth (Jint y) (Jint m) = Jint (month_length y m)"
proof -
  define yr where "yr = (if 0 \<le> y \<and> y \<le> 99 then 1900 + y else y)"
  define mi where "mi = m + 1"
  define ym where "ym = yr + mi div 12"
  define mn where "mn = mi mod 12"
  define day where "day = DayFromYear ym + days_before_month ym mn - 1"
  have yr: "1 \<le> yr" "yr \<le> 275000" "month_length yr m = month_length y m"
    using assms by (auto simp: yr_def month_length_1900)
  have ym: "1 \<le> ym" "ym \<le> 275002" using yr assms by (auto simp: ym_def mi_def)
  have mn: "0 \<le> mn" "mn \<le> 11" by (auto simp: mn_def)
  have "\<bar>day\<bar> \<le> 100000000"
    using DayFromYear_bounds [OF ym] days_before_month_bounds [OF mn, of ym]
    by (simp add: day_def)
  then have range: "\<not> \<bar>day\<bar> > 100000000" by simp
  have last: "(if mn = 0 then month_length (ym - 1) 11 else month_length ym (mn - 1))
              = month_length y m"
  proof (cases "m = 11")
    case True
    then have "mn = 0" "month_length y m = 31" by (simp_all add: mn_def mi_def month_length_def)
    then show ?thesis by (simp add: month_length_def)
  next
    case False
    then have "mi div 12 = 0" "mn = m + 1" using assms by (auto simp: mi_def mn_def)
    then show ?thesis using yr(3) assms by (simp add: ym_def)
  qed
  have tr: "trunc (of_int m + 1) = m + 1"
    using trunc_of_int [of "m + 1"] by simp
  have "getDaysInMonth (Jint y) (Jint m) =
        (if \<bar>day\<bar> > 100000000 then NaN
         else Jint (if mn = 0 then month_length (ym - 1) 11 else month_length ym (mn - 1)))"
    unfolding getDaysInMonth_def
    by (simp only: js_add.simps prod.case jsnum.case Let_def trunc_of_int tr
          yr_def mi_def ym_def mn_def day_def)
  then show ?thesis using range last by simp
qed

subsection \<open>The segmenter on integer dates\<close>

lemma js_cmp_numeral:
  "js_gt (Jint a) (Fin 1) = (1 < a)"
  "js_gt (Jint a) (Fin (numeral n)) = (numeral n < a)"
  "js_lt (Jint a) (Fin (numeral n)) = (a < numeral n)"
  using js_gt_Int [of a 1] js_gt_Int [of a "numeral n"] js_lt_Int [of a "numeral n"]
  by simp_all

lemma month_periods_Int:
  assumes "0 \<le> m" "m \<le> 11" "1 \<le> y" "y \<le> 275000"
  shows "month_periods (Jint sY) (Jint (sM - 1)) (Jint sD) (Jint eY) (Jint (eM - 1)) (Jint eD) t
           (Jint y) (Jint m) =
         (if t = ''mensual'' then
            (if \<not> ((y = sY \<and> m + 1 = sM \<and> sD > 1) \<or>
                    (y = eY \<and> m + 1 = eM \<and> eD < last_day y (m + 1)))
             then [closed_period y (m + 1) 1 (last_day y (m + 1))] else [])
          else
            (if first_half_emitted sY sM sD eY eM eD y (m + 1)
             then [closed_period y (m + 1) 1 15] else []) @
            (if second_half_emitted sY sM sD eY eM eD y (m + 1)
             then [closed_period y (m + 1) 16 (last_day y (m + 1))] else []))"
proof -
  have s: "(js_seq (Jint y) (Jint sY) \<and> js_seq (Jint m) (Jint (sM - 1))) = (y = sY \<and> m + 1 = sM)"
    unfolding js_seq_Int by auto
  have e: "(js_seq (Jint y) (Jint eY) \<and> js_seq (Jint m) (Jint (eM - 1))) = (y = eY \<and> m + 1 = eM)"
    unfolding js_seq_Int by auto
  have iff: "\<And>P Q R P' Q' R'. (if (P \<and> Q) \<and> R then False else if (P' \<and> Q') \<and> R' then False else True)
      = (\<not> (P' \<and> Q' \<and> R' \<or> P \<and> Q \<and> R))"
    by auto
  have c: "Jint 1 = Fin 1" "Jint 15 = Fin 15" "Jint 16 = Fin 16" "m + 1 - 1 = m" by simp_all
  show ?thesis
    unfolding month_periods_def getDaysInMonth_Int [OF assms] Let_def s e
      js_lt_Int js_cmp_numeral
      first_half_emitted_def second_half_emitted_def closed_period_def iso_date_def last_day_def c
      iff
    by (rule refl)
qed


lemma parseDate_falsy: "\<not> truthy v \<Longrightarrow> parseDate v = [Fin 0, Fin 0, Fin 0]"
  by (cases v) (simp_all add: parseDate_def str_includes_def)

lemma visited_months_empty:
  "12 * eY + eM < 12 * sY + sM \<Longrightarrow> visited_months sY sM eY eM = []"
  by (simp add: visited_months_def)

lemma getPeriods_Int:
  assumes ps: "parseDate startStr = [Jint sY, Jint sM, Jint sD]"
    and pe: "parseDate endStr = [Jint eY, Jint eM, Jint eD]"
    and yrs: "1 \<le> sY" "eY \<le> 275000"
    and mths: "1 \<le> sM" "sM \<le> 12" "1 \<le> eM" "eM \<le> 12"
  shows "getPeriods startStr endStr t =
         Some (concat (map (\<lambda>(y, m).
                 if t = ''mensual'' then
                   (if \<not> ((y = sY \<and> m = sM \<and> sD > 1) \<or>
                           (y = eY \<and> m = eM \<and> eD < last_day y m))
                    then [closed_period y m 1 (last_day y m)] else [])
                 else
                   (if first_half_emitted sY sM sD eY eM eD y m
                    then [closed_period y m 1 15] else []) @
                   (if second_half_emitted sY sM sD eY eM eD y m
                    then [closed_period y m 16 (last_day y m)] else []))
               (visited_months sY sM eY eM)))"
    (is "_ = Some (concat (map ?F _))")
proof (cases "eY \<le> 0")
  case True
  have ts: "truthy startStr"
    using ps parseDate_falsy [of startStr] yrs(1) by auto
  have "getPeriods startStr endStr t = Some []"
  proof (cases "truthy endStr")
    case False
    then show ?thesis by (simp add: getPeriods_def)
  next
    case te: True
    show ?thesis
    proof (cases "eY = 0")
      case True
      then show ?thesis
        using ts te by (simp add: getPeriods_def ps pe elem_def num_truthy_def Let_def)
    next
      case False
      with \<open>eY \<le> 0\<close> have neg: "eY < sY" "eY \<noteq> 0" using yrs(1) by auto
      have nc: "\<not> loop_cond (Jint eY) (Jint (eM - 1)) (Jint sY) (Jint (sM - 1))"
        unfolding loop_cond_Int using neg by simp
      have run: "getPeriods startStr endStr t =
        getPeriods_loop (Jint sY) (Jint (sM - 1)) (Jint sD) (Jint eY) (Jint (eM - 1)) (Jint eD) t
          (Jint sY, Jint (sM - 1)) []"
        using ts te neg(2) yrs(1)
        by (simp add: getPeriods_def ps pe elem_def num_truthy_def js_isNaN_def Let_def
              js_sub_def)
      show ?thesis
        unfolding run using nc by (subst getPeriods_loop.simps) simp
    qed
  qed
  moreover have "visited_months sY sM eY eM = []"
    using True yrs(1) mths by (intro visited_months_empty) simp
  ultimately show ?thesis by simp
next
  case False
  then have eYpos: "1 \<le> eY" by simp
  have ts: "truthy startStr"
    using ps parseDate_falsy [of startStr] yrs(1) by auto
  have te: "truthy endStr"
    using pe parseDate_falsy [of endStr] eYpos by auto
  have nz: "sY \<noteq> 0" "eY \<noteq> 0" using yrs(1) eYpos by simp_all
  have m0: "0 \<le> sM - 1" "sM - 1 \<le> 11" "0 \<le> eM - 1" "eM - 1 \<le> 11"
    using mths by simp_all
  have run: "getPeriods startStr endStr t =
        getPeriods_loop (Jint sY) (Jint (sM - 1)) (Jint sD) (Jint eY) (Jint (eM - 1)) (Jint eD) t
          (Jint sY, Jint (sM - 1)) []"
    using ts te nz
    by (simp add: getPeriods_def ps pe elem_def num_truthy_def js_isNaN_def Let_def js_sub_def)
  have each: "month_periods (Jint sY) (Jint (sM - 1)) (Jint sD) (Jint eY) (Jint (eM - 1))
                (Jint eD) t (Jint (k div 12)) (Jint (k mod 12)) = ?F (k div 12, k mod 12 + 1)"
    if "k \<in> set [12 * sY + (sM - 1) .. 12 * eY + (eM - 1)]" for k
  proof -
    from that have k: "12 * sY + (sM - 1) \<le> k" "k \<le> 12 * eY + (eM - 1)" by simp_all
    have "1 \<le> k div 12" "k div 12 \<le> 275000"
      using k yrs m0 by auto
    moreover have "0 \<le> k mod 12" "k mod 12 \<le> 11" by auto
    ultimately have "month_periods (Jint sY) (Jint (sM - 1)) (Jint sD) (Jint eY) (Jint (eM - 1))
                (Jint eD) t (Jint (k div 12)) (Jint (k mod 12)) =
         (if t = ''mensual'' then
            (if \<not> ((k div 12 = sY \<and> k mod 12 + 1 = sM \<and> sD > 1) \<or>
                    (k div 12 = eY \<and> k mod 12 + 1 = eM \<and>
                     eD < last_day (k div 12) (k mod 12 + 1)))
             then [closed_period (k div 12) (k mod 12 + 1) 1
                     (last_day (k div 12) (k mod 12 + 1))] else [])
          else
            (if first_half_emitted sY sM sD eY eM eD (k div 12) (k mod 12 + 1)
             then [closed_period (k div 12) (k mod 12 + 1) 1 15] else []) @
            (if second_half_emitted sY sM sD eY eM eD (k div 12) (k mod 12 + 1)
             then [closed_period (k div 12) (k mod 12 + 1) 16
                     (last_day (k div 12) (k mod 12 + 1))] else []))"
      by (rule month_periods_Int [rotated 2])
    also have "\<dots> = ?F (k div 12, k mod 12 + 1)"
      by (simp only: prod.case)
    finally show ?thesis .
  qed
  have "map (\<lambda>k. month_periods (Jint sY) (Jint (sM - 1)) (Jint sD) (Jint eY) (Jint (eM - 1))
                (Jint eD) t (Jint (k div 12)) (Jint (k mod 12)))
          [12 * sY + (sM - 1) .. 12 * eY + (eM - 1)] =
        map ?F (visited_months sY sM eY eM)"
    unfolding visited_months_def map_map comp_def
    by (rule map_cong [OF refl]) (rule each)
  then show ?thesis
    unfolding run getPeriods_loop_months [OF m0] by (simp only: append_Nil)
qed

lemma getPeriods_render:
  assumes "parseDate startStr = [Jint sY, Jint sM, Jint sD]"
    and "parseDate endStr = [Jint eY, Jint eM, Jint eD]"
    and "1 \<le> sY" "eY \<le> 275000"
    and "1 \<le> sM" "sM \<le> 12" "1 \<le> eM" "eM \<le> 12"
  shows "getPeriods startStr endStr t = Some (map render (period_days t sY sM sD eY eM eD))"
proof -
  have "map render (period_days t sY sM sD eY eM eD) =
        concat (map (\<lambda>(y, m).
                 if t = ''mensual'' then
                   (if \<not> ((y = sY \<and> m = sM \<and> sD > 1) \<or>
                           (y = eY \<and> m = eM \<and> eD < last_day y m))
                    then [closed_period y m 1 (last_day y m)] else [])
                 else
                   (if first_half_emitted sY sM sD eY eM eD y m
                    then [closed_period y m 1 15] else []) @
                   (if second_half_emitted sY sM sD eY eM eD y m
                    then [closed_period y m 16 (last_day y m)] else []))
               (visited_months sY sM eY eM))"
    unfolding period_days_def map_concat map_map
    by (rule arg_cong [where f = concat], rule map_cong [OF refl])
       (auto simp: render_def)
  then show ?thesis
    using getPeriods_Int [OF assms, of t] by simp
qed

lemma visited_months_set:
  "(y, m) \<in> set (visited_months sY sM eY eM) \<Longrightarrow>
     1 \<le> m \<and> m \<le> 12 \<and> 12 * sY + (sM - 1) \<le> 12 * y + (m - 1) \<and>
     12 * y + (m - 1) \<le> 12 * eY + (eM - 1)"
  by (auto simp: visited_months_def)


subsection \<open>The calculator, round by round\<close>

lemma ot_step_eq:
  "ot_step data (hourlyDelta data) c (ds, sm) =
     (ds @ (if overtime_emitted data c then [overtime_line data c] else []),
      overtime_fields data c sm)"
  by (simp add: ot_step_def overtime_emitted_def overtime_line_def overtime_fields_def
        quantity_def overtime_amount_def Let_def)

lemma ot_fold_eq:
  "fold (ot_step data (hourlyDelta data)) cs (ds, sm) =
     (ds @ concat (map (\<lambda>c. if overtime_emitted data c then [overtime_line data c] else []) cs),
      fold (overtime_fields data) cs sm)"
  by (induction cs arbitrary: ds sm) (simp_all add: ot_step_eq)

lemma period_step_eq:
  "period_step data (perPeriodSalary data t) (hourlyDelta data) (i, p) (ds, ss) =
     (ds @ round_lines data t i p, ss @ [round_summary data t i p])"
  by (simp add: period_step_def round_lines_def round_summary_def salary_line_def
        ot_fold_eq Let_def)

lemma period_fold_eq:
  "fold (period_step data (perPeriodSalary data t) (hourlyDelta data)) (enumerate n ps) (ds, ss) =
     (ds @ concat (map (\<lambda>(i, p). round_lines data t i p) (enumerate n ps)),
      ss @ map (\<lambda>(i, p). round_summary data t i p) (enumerate n ps))"
  by (induction ps arbitrary: n ds ss) (simp_all add: period_step_eq)

lemma calculateRetroactive_eq:
  assumes "getPeriods (data ''FECHA_INICIO'') (data ''FECHA_FIN'') t = Some ps"
  shows "calculateRetroactive data t =
         Some \<lparr>details = concat (map (\<lambda>(i, p). round_lines data t i p) (enumerate 0 ps)),
               summaries = map (\<lambda>(i, p). round_summary data t i p) (enumerate 0 ps)\<rparr>"
proof (cases "ps = []")
  case True
  then show ?thesis by (simp add: calculateRetroactive_def assms)
next
  case False
  have "calculateRetroactive data t =
        (let st = fold (period_step data (perPeriodSalary data t) (hourlyDelta data))
                    (enumerate 0 ps) ([], [])
         in Some \<lparr>details = fst st, summaries = snd st\<rparr>)"
    using False
    by (simp add: calculateRetroactive_def assms Let_def perPeriodSalary_def hourlyDelta_def
          salaryDelta_def periodFactor_def)
  then show ?thesis by (simp add: period_fold_eq)
qed

subsection \<open>Summary rows and the overtime table\<close>









lemma otMapping_labels:
  "distinct (map label otMapping)"
  "''Retroactivo sueldo'' \<notin> set (map label otMapping)"
proof -
  have "distinct (map length (''Retroactivo sueldo'' # map label otMapping))"
    by (simp add: otMapping_def)
  then have "distinct (''Retroactivo sueldo'' # map label otMapping)"
    by (rule distinct_map [THEN iffD1, THEN conjunct1])
  then show "distinct (map label otMapping)"
    "''Retroactivo sueldo'' \<notin> set (map label otMapping)"
    by simp_all
qed


lemma otMapping_report_keys:
  "c \<in> set otMapping \<Longrightarrow>
     reportValKey c \<in>
       {''Devengos Prestacionales - Hora Extra Diurna Ordinaria (1.25)'',
        ''Devengos Prestacionales - Hora Extra Nocturna (1.75)'',
        ''Devengos Prestacionales - Hora Extra Diurna Dominical Y Festivos (2.05)'',
        ''Devengos Prestacionales - Hora Extra Nocturna Dominical Y Festivos (2.55)''} \<and>
     reportQtyKey c \<in>
       {''Comprobante - Hora Extra Diurna Ordinaria (1.25)'',
        ''Comprobante - Hora Extra Nocturna (1.75)'',
        ''Comprobante - Hora Extra Diurna Dominical y Festivos (2.05)'',
        ''Comprobante - Hora Extra Nocturna Dominical Y Festivos (2.55)''}"
  by (auto simp: otMapping_def)

lemmas summary_eval =
  new_summary_def get_prop_def key_salario_def key_periodo_def key_documento_def key_ficha_def

lemma new_summary_zero_literal:
  "get_prop (new_summary data s)
     ''Devengos Prestacionales - Hora Extra Diurna Ordinaria (1.25)'' = JNum (Fin 0)"
  "get_prop (new_summary data s)
     ''Devengos Prestacionales - Hora Extra Nocturna (1.75)'' = JNum (Fin 0)"
  "get_prop (new_summary data s)
     ''Devengos Prestacionales - Hora Extra Diurna Dominical Y Festivos (2.05)'' = JNum (Fin 0)"
  "get_prop (new_summary data s)
     ''Devengos Prestacionales - Hora Extra Nocturna Dominical Y Festivos (2.55)'' = JNum (Fin 0)"
  "get_prop (new_summary data s)
     ''Comprobante - Hora Extra Diurna Ordinaria (1.25)'' = JNum (Fin 0)"
  "get_prop (new_summary data s)
     ''Comprobante - Hora Extra Nocturna (1.75)'' = JNum (Fin 0)"
  "get_prop (new_summary data s)
     ''Comprobante - Hora Extra Diurna Dominical y Festivos (2.05)'' = JNum (Fin 0)"
  "get_prop (new_summary data s)
     ''Comprobante - Hora Extra Nocturna Dominical Y Festivos (2.55)'' = JNum (Fin 0)"
  by (simp_all add: summary_eval)

lemma new_summary_zero:
  "get_prop (new_summary data s) key_salario = JNum (Fin 0)"
  "c \<in> set otMapping \<Longrightarrow> get_prop (new_summary data s) (reportValKey c) = JNum (Fin 0)"
  "c \<in> set otMapping \<Longrightarrow> get_prop (new_summary data s) (reportQtyKey c) = JNum (Fin 0)"
proof -
  show "get_prop (new_summary data s) key_salario = JNum (Fin 0)"
    by (simp add: summary_eval)
  show "get_prop (new_summary data s) (reportValKey c) = JNum (Fin 0)" if "c \<in> set otMapping"
    using otMapping_report_keys [OF that] new_summary_zero_literal [of data s] by auto
  show "get_prop (new_summary data s) (reportQtyKey c) = JNum (Fin 0)" if "c \<in> set otMapping"
    using otMapping_report_keys [OF that] new_summary_zero_literal [of data s] by auto
qed



lemma filter_round_lines_salary:
  "filter (\<lambda>d. CONCEPTO d = ''Retroactivo sueldo'') (round_lines data t i p) =
         (if js_gt (perPeriodSalary data t) (Fin 0) then [salary_line data t p] else [])"
proof -
  have "filter (\<lambda>d. CONCEPTO d = ''Retroactivo sueldo'')
           (concat (map (\<lambda>c'. if overtime_emitted data c' then [overtime_line data c'] else [])
                      cs)) = []" if "''Retroactivo sueldo'' \<notin> set (map label cs)" for cs
    using that by (induction cs) (auto simp: overtime_line_def)
  from this [OF otMapping_labels(2)] show ?thesis
    by (simp add: round_lines_def salary_line_def)
qed


subsection \<open>The example rows\<close>


lemma january_february_2024:
  "getPeriods (JStr ''2024-01-01'') (JStr ''29/02/2024'') ''mensual'' =
     Some [\<lparr>start = ''2024-01-01'', end = ''2024-01-31''\<rparr>,
           \<lparr>start = ''2024-02-01'', end = ''2024-02-29''\<rparr>]"
proof -
  have s: "parseDate (JStr ''2024-01-01'') = [Jint 2024, Jint 1, Jint 1]"
    by (simp add: parse_eval)
  have e: "parseDate (JStr ''29/02/2024'') = [Jint 2024, Jint 2, Jint 29]"
    by (simp add: parse_eval)
  have "map render (period_days ''mensual'' 2024 1 1 2024 2 29) =
     [\<lparr>start = ''2024-01-01'', end = ''2024-01-31''\<rparr>,
      \<lparr>start = ''2024-02-01'', end = ''2024-02-29''\<rparr>]"
    by (simp add: period_days_def render_def period_eval)
  then show ?thesis
    using getPeriods_render [OF s e, of "''mensual''"] by simp
qed

lemma row_no_raise_fields:
  "row_no_raise ''FECHA_INICIO'' = JStr ''2024-01-01''"
  "row_no_raise ''FECHA_FIN'' = JStr ''29/02/2024''"
  "salaryDelta row_no_raise = Fin 0"
  by (simp_all add: row_no_raise_def row_def salaryDelta_def number_eval or_zero_def
        num_truthy_def js_sub_def)

lemmas calc_eval =
  round_lines_def round_summary_def salary_line_def overtime_line_def overtime_emitted_def
  overtime_amount_def overtime_fields_def quantity_def hourlyDelta_def perPeriodSalary_def
  periodFactor_def salaryDelta_def formattedStartDate_def piece_def new_summary_def
  otMapping_def FACTORS_def or_zero_def num_truthy_def js_sub_def js_gt_def
  number_eval string_eval row_def floor_numeral_div



lemma row_two_months_periods:
  "getPeriods (row_two_months ''FECHA_INICIO'') (row_two_months ''FECHA_FIN'') ''mensual'' =
     Some [\<lparr>start = ''2024-01-01'', end = ''2024-01-31''\<rparr>,
           \<lparr>start = ''2024-02-01'', end = ''2024-02-29''\<rparr>]"
  by (simp add: row_two_months_def row_def january_february_2024)


subsection \<open>Salary lines\<close>


lemma filter_details_salary:
  "filter (\<lambda>d. CONCEPTO d = ''Retroactivo sueldo'')
     (concat (map (\<lambda>(i, p). round_lines data t i p) (enumerate n ps))) =
   (if js_gt (perPeriodSalary data t) (Fin 0) then map (salary_line data t) ps else [])"
  by (induction ps arbitrary: n) (simp_all add: filter_round_lines_salary)





subsection \<open>Claims about the segmenter\<close>



text \<open>
  C3. Semi-monthly cycle: each visited month is offered its two halves independently; the
  first half (1 to 15) is emitted unless the month is the start month and the start day is
  after 1, or it is the end month and the end day is before 15; the second half (16 to the
  last day) unless the month is the start month and the start day is after 16, or it is the
  end month and the end day is before the month's last day.
\<close>

theorem C3_semimonthly_emits_halves:
  assumes "parseDate startStr = [Jint sY, Jint sM, Jint sD]"
    and "parseDate endStr = [Jint eY, Jint eM, Jint eD]"
    and "1 \<le> sY" "eY \<le> 275000"
    and "1 \<le> sM" "sM \<le> 12" "1 \<le> eM" "eM \<le> 12"
  shows "getPeriods startStr endStr ''quincenal'' =
         Some (segment_semimonthly sY sM sD eY eM eD)"
proof -
  have "map render (period_days ''quincenal'' sY sM sD eY eM eD) =
        segment_semimonthly sY sM sD eY eM eD"
    unfolding period_days_def segment_semimonthly_def map_concat map_map
    by (intro arg_cong [where f = concat] map_cong [OF refl])
       (auto simp: render_def)
  then show ?thesis
    using getPeriods_render [OF assms, of "''quincenal''"] by simp
qed

theorem C3_witness:
  "parseDate (JStr ''2024-01-10'') = [Jint 2024, Jint 1, Jint 10] \<and>
   parseDate (JStr ''2024-02-20'') = [Jint 2024, Jint 2, Jint 20] \<and>
   getPeriods (JStr ''2024-01-10'') (JStr ''2024-02-20'') ''quincenal'' =
     Some [\<lparr>start = ''2024-01-16'', end = ''2024-01-31''\<rparr>,
           \<lparr>start = ''2024-02-01'', end = ''2024-02-15''\<rparr>]"
proof -
  have s: "parseDate (JStr ''2024-01-10'') = [Jint 2024, Jint 1, Jint 10]"
    by (simp add: parse_eval)
  have e: "parseDate (JStr ''2024-02-20'') = [Jint 2024, Jint 2, Jint 20]"
    by (simp add: parse_eval)
  have "segment_semimonthly 2024 1 10 2024 2 20 =
     [\<lparr>start = ''2024-01-16'', end = ''2024-01-31''\<rparr>,
      \<lparr>start = ''2024-02-01'', end = ''2024-02-15''\<rparr>]"
    by (simp add: segment_semimonthly_def first_half_emitted_def second_half_emitted_def
          period_eval)
  then show ?thesis
    using s e C3_semimonthly_emits_halves [OF s e] by simp
qed

subsection \<open>A month that is not a number\<close>

lemma advance_NaN: "advance (y, NaN) = (y, NaN)"
  by (simp add: advance_def js_gt_def)

text \<open>
  With the month NaN and the year before the end year, the loop condition holds and the
  advance leaves the state as it is: the loop never ends.
\<close>

lemma getPeriods_loop_NaN_month:
  assumes "js_lt cY eY"
  shows "getPeriods_loop sY sMi sD eY eMi eD t (cY, NaN) acc = None"
proof (rule ccontr)
  assume "getPeriods_loop sY sMi sD eY eMi eD t (cY, NaN) acc \<noteq> None"
  then obtain r where r: "getPeriods_loop sY sMi sD eY eMi eD t (cY, NaN) acc = Some r"
    by auto
  have "\<not> (js_lt (fst ym) eY \<and> snd ym = NaN)"
    if run: "getPeriods_loop sY sMi sD eY eMi eD t ym acc = Some r" for ym
  proof (rule getPeriods_loop.raw_induct
      [where P = "\<lambda>_ _ _ eY _ _ _ ym _ _. \<not> (js_lt (fst ym) eY \<and> snd ym = NaN)", OF _ run],
      goal_cases)
    case (1 f sY sMi sD eY eMi eD t ym acc r)
    show ?case
    proof
      assume h: "js_lt (fst ym) eY \<and> snd ym = NaN"
      then have "loop_cond eY eMi (fst ym) (snd ym)" by (simp add: loop_cond_def)
      with 1(2) have "f sY sMi sD eY eMi eD t (advance ym)
          (acc @ month_periods sY sMi sD eY eMi eD t (fst ym) (snd ym)) = Some r"
        by simp
      from 1(1) [OF this]
      have "\<not> (js_lt (fst (advance ym)) eY \<and> snd (advance ym) = NaN)" .
      moreover have "advance ym = ym" using h advance_NaN [of "fst ym"] by (cases ym) simp
      ultimately show False using h by simp
    qed
  qed
  from this [OF r] assms show False by simp
qed

text \<open>
  C4 (the code does not do this). \<^verbatim>\<open>getPeriods\<close> validates the two years only. A start
  date whose month is not a number, here \<^verbatim>\<open>2024-ene-01\<close>, passes the validation with the
  month NaN; with an end date in a later year the loop never ends, so neither
  \<^verbatim>\<open>getPeriods\<close> nor \<^verbatim>\<open>calculateRetroactive\<close> returns.
\<close>

theorem C4_month_word_never_returns:
  "parseDate (JStr ''2024-ene-01'') = [Fin 2024, NaN, Fin 1] \<and>
   getPeriods (JStr ''2024-ene-01'') (JStr ''2025-01-31'') ''mensual'' = None \<and>
   getPeriods (JStr ''2024-ene-01'') (JStr ''2025-01-31'') ''quincenal'' = None \<and>
   calculateRetroactive row_month_word ''mensual'' = None"
proof -
  have s: "parseDate (JStr ''2024-ene-01'') = [Fin 2024, NaN, Fin 1]"
    by (simp add: parse_eval)
  have e: "parseDate (JStr ''2025-01-31'') = [Fin 2025, Fin 1, Fin 31]"
    by (simp add: parse_eval)
  have g: "getPeriods (JStr ''2024-ene-01'') (JStr ''2025-01-31'') t = None" for t
    by (simp add: getPeriods_def s e elem_def num_truthy_def js_isNaN_def js_sub_def
          getPeriods_loop_NaN_month)
  have c: "calculateRetroactive row_month_word ''mensual'' = None"
    by (simp add: calculateRetroactive_def row_month_word_def row_def g)
  show ?thesis using s g c by simp
qed

theorem C4_witness:
  "truthy (JStr ''2024-ene-01'') \<and> truthy (JStr ''2025-01-31'') \<and>
   getPeriods (JStr ''2024-ene-01'') (JStr ''2025-01-31'') ''mensual'' = None"
  using C4_month_word_never_returns by simp




lemma visited_months_Cons:
  assumes "12 * sY + (sM - 1) \<le> 12 * eY + (eM - 1)" "1 \<le> sM" "sM \<le> 12"
  shows "visited_months sY sM eY eM =
         (sY, sM) # map (\<lambda>k. (k div 12, k mod 12 + 1)) [12 * sY + sM .. 12 * eY + (eM - 1)]"
proof -
  have "(12 * sY + (sM - 1)) div 12 = sY" "(12 * sY + (sM - 1)) mod 12 = sM - 1"
    using assms(2,3) by auto
  moreover have "12 * sY + (sM - 1) + 1 = 12 * sY + sM" by simp
  ultimately show ?thesis
    unfolding visited_months_def upto_rec1 [OF assms(1)] by simp
qed

lemma later_month_differs:
  fixes k sY sM :: int
  assumes "12 * sY + sM \<le> k" "1 \<le> sM" "sM \<le> 12"
  shows "\<not> (k div 12 = sY \<and> k mod 12 + 1 = sM)"
proof
  assume a: "k div 12 = sY \<and> k mod 12 + 1 = sM"
  have "k = 12 * (k div 12) + k mod 12" by simp
  with a have "k = 12 * sY + (sM - 1)" by simp
  with assms(1) show False by simp
qed

text \<open>
  C6 (as amended). Monthly cycle: when the start day is after 1, the start month yields no
  period, whatever the end date; the result is that of the months after the start month.
  In particular it is empty when both dates lie in the same month, even if the end date
  is the month's last day. (A range that reaches later months still returns them.)
\<close>

theorem C6_monthly_start_month_rejected:
  assumes "parseDate startStr = [Jint sY, Jint sM, Jint sD]"
    and "parseDate endStr = [Jint eY, Jint eM, Jint eD]"
    and "1 \<le> sY" "eY \<le> 275000"
    and "1 \<le> sM" "sM \<le> 12" "1 \<le> eM" "eM \<le> 12"
    and "1 < sD"
  shows "getPeriods startStr endStr ''mensual'' =
           Some (concat (map (\<lambda>(y, m). if y = eY \<and> m = eM \<and> eD < last_day y m then []
                                        else [closed_period y m 1 (last_day y m)])
                          (tl (visited_months sY sM eY eM)))) \<and>
         (sY = eY \<and> sM = eM \<longrightarrow> getPeriods startStr endStr ''mensual'' = Some [])"
proof -
  let ?G = "\<lambda>(y, m). if y = eY \<and> m = eM \<and> eD < last_day y m then []
                      else [closed_period y m 1 (last_day y m)]"
  let ?F = "\<lambda>(y, m). if \<not> ((y = sY \<and> m = sM \<and> sD > 1) \<or>
                             (y = eY \<and> m = eM \<and> eD < last_day y m))
                       then [closed_period y m 1 (last_day y m)] else []"
  have run: "getPeriods startStr endStr ''mensual'' =
             Some (concat (map ?F (visited_months sY sM eY eM)))"
    using getPeriods_Int [OF assms(1-8), of "''mensual''"] by simp
  have main: "concat (map ?F (visited_months sY sM eY eM)) =
              concat (map ?G (tl (visited_months sY sM eY eM)))"
  proof (cases "12 * sY + (sM - 1) \<le> 12 * eY + (eM - 1)")
    case False
    then have "visited_months sY sM eY eM = []" by (simp add: visited_months_def)
    then show ?thesis by simp
  next
    case True
    note vm = visited_months_Cons [OF True assms(5,6)]
    have "?F (k div 12, k mod 12 + 1) = ?G (k div 12, k mod 12 + 1)"
      if "k \<in> set [12 * sY + sM .. 12 * eY + (eM - 1)]" for k
      using later_month_differs [OF _ assms(5,6), of k] that by auto
    then have rest: "map ?F (map (\<lambda>k. (k div 12, k mod 12 + 1)) [12 * sY + sM .. 12 * eY + (eM - 1)])
             = map ?G (map (\<lambda>k. (k div 12, k mod 12 + 1)) [12 * sY + sM .. 12 * eY + (eM - 1)])"
      unfolding map_map comp_def by (intro map_cong [OF refl])
    have first: "?F (sY, sM) = []" using assms(9) by simp
    show ?thesis
      by (simp only: vm list.map concat.simps list.sel first rest append_Nil)
  qed
  have same: "tl (visited_months sY sM eY eM) = []" if "sY = eY \<and> sM = eM"
    using that by (simp add: visited_months_def)
  show ?thesis
    unfolding run main using same by simp
qed

theorem C6_witness:
  "parseDate (JStr ''2024-02-05'') = [Jint 2024, Jint 2, Jint 5] \<and>
   parseDate (JStr ''2024-02-29'') = [Jint 2024, Jint 2, Jint 29] \<and>
   getPeriods (JStr ''2024-02-05'') (JStr ''2024-02-29'') ''mensual'' = Some []"
proof -
  have s: "parseDate (JStr ''2024-02-05'') = [Jint 2024, Jint 2, Jint 5]"
    by (simp add: parse_eval)
  have e: "parseDate (JStr ''2024-02-29'') = [Jint 2024, Jint 2, Jint 29]"
    by (simp add: parse_eval)
  show ?thesis
    using s e C6_monthly_start_month_rejected [OF s e, THEN conjunct2] by simp
qed

theorem C6_counterexample:
  "parseDate (JStr ''2024-01-15'') = [Jint 2024, Jint 1, Jint 15] \<and>
   getPeriods (JStr ''2024-01-15'') (JStr ''2024-03-31'') ''mensual'' =
     Some [\<lparr>start = ''2024-02-01'', end = ''2024-02-29''\<rparr>,
           \<lparr>start = ''2024-03-01'', end = ''2024-03-31''\<rparr>]"
proof -
  have s: "parseDate (JStr ''2024-01-15'') = [Jint 2024, Jint 1, Jint 15]"
    by (simp add: parse_eval)
  have e: "parseDate (JStr ''2024-03-31'') = [Jint 2024, Jint 3, Jint 31]"
    by (simp add: parse_eval)
  have "map render (period_days ''mensual'' 2024 1 15 2024 3 31) =
     [\<lparr>start = ''2024-02-01'', end = ''2024-02-29''\<rparr>,
      \<lparr>start = ''2024-03-01'', end = ''2024-03-31''\<rparr>]"
    by (simp add: period_days_def render_def period_eval)
  then show ?thesis
    using s getPeriods_render [OF s e, of "''mensual''"] by simp
qed

lemma split_no_separator: "c \<notin> set a \<Longrightarrow> split c a = [a]"
  by (induction a) auto

lemma split_at_separator: "c \<notin> set a \<Longrightarrow> split c (a @ c # rest) = a # split c rest"
  by (induction a) auto

lemma formattedStartDate_parts:
  assumes "start p = yyyy @ ''-'' @ mm @ ''-'' @ dd"
    and "CHR ''-'' \<notin> set yyyy" "CHR ''-'' \<notin> set mm" "CHR ''-'' \<notin> set dd"
  shows "formattedStartDate p = dd @ ''/'' @ mm @ ''/'' @ yyyy"
proof -
  have "split CHR ''-'' (start p) = [yyyy, mm, dd]"
    using assms split_at_separator [of "CHR ''-''" yyyy "mm @ ''-'' @ dd"]
      split_at_separator [of "CHR ''-''" mm dd] split_no_separator [of "CHR ''-''" dd]
    by simp
  then show ?thesis
    by (simp add: formattedStartDate_def piece_def)
qed

text \<open>
  C7 (as amended). For the \<open>i\<close>-th period of the segmented sequence, whose start date the
  program writes \<^verbatim>\<open>YYYY-MM-DD\<close>, the \<open>i\<close>-th salary line (there is one per period when
  the per-period amount is positive) has as its detail the word \<^verbatim>\<open>Periodo\<close>, a space, and
  that start date written \<^verbatim>\<open>DD/MM/YYYY\<close>.
\<close>

theorem C7_salary_detail_is_periodo_and_start_date:
  assumes "getPeriods (data ''FECHA_INICIO'') (data ''FECHA_FIN'') t = Some ps"
    and "js_gt (perPeriodSalary data t) (Fin 0)"
    and "i < length ps"
    and "start (ps ! i) = yyyy @ ''-'' @ mm @ ''-'' @ dd"
    and "CHR ''-'' \<notin> set yyyy" "CHR ''-'' \<notin> set mm" "CHR ''-'' \<notin> set dd"
  shows "\<exists>r. calculateRetroactive data t = Some r \<and>
           length (filter (\<lambda>d. CONCEPTO d = ''Retroactivo sueldo'') (details r)) = length ps \<and>
           DETALLE (filter (\<lambda>d. CONCEPTO d = ''Retroactivo sueldo'') (details r) ! i) =
             ''Periodo '' @ dd @ ''/'' @ mm @ ''/'' @ yyyy"
proof -
  let ?r = "\<lparr>details = concat (map (\<lambda>(i, p). round_lines data t i p) (enumerate 0 ps)),
            summaries = map (\<lambda>(i, p). round_summary data t i p) (enumerate 0 ps)\<rparr>"
  have r: "calculateRetroactive data t = Some ?r"
    by (rule calculateRetroactive_eq [OF assms(1)])
  have f: "filter (\<lambda>d. CONCEPTO d = ''Retroactivo sueldo'') (details ?r) =
           map (salary_line data t) ps"
    using assms(2) by (simp only: result.simps filter_details_salary if_True)
  have l: "length (filter (\<lambda>d. CONCEPTO d = ''Retroactivo sueldo'') (details ?r)) = length ps"
    unfolding f by simp
  have d: "DETALLE (filter (\<lambda>d. CONCEPTO d = ''Retroactivo sueldo'') (details ?r) ! i) =
             ''Periodo '' @ dd @ ''/'' @ mm @ ''/'' @ yyyy"
    unfolding f using assms(3) formattedStartDate_parts [OF assms(4-7)]
    by (simp add: salary_line_def)
  show ?thesis
    by (rule exI [of _ ?r], intro conjI) (rule r l d)+
qed

theorem C7_witness:
  "getPeriods (row_two_months ''FECHA_INICIO'') (row_two_months ''FECHA_FIN'') ''mensual'' =
     Some [\<lparr>start = ''2024-01-01'', end = ''2024-01-31''\<rparr>,
           \<lparr>start = ''2024-02-01'', end = ''2024-02-29''\<rparr>] \<and>
   perPeriodSalary row_two_months ''mensual'' = Fin 100000 \<and>
   map_option (\<lambda>r. DETALLE (filter (\<lambda>d. CONCEPTO d = ''Retroactivo sueldo'') (details r) ! 1))
     (calculateRetroactive row_two_months ''mensual'') = Some ''Periodo 01/02/2024''"
proof -
  note gp = row_two_months_periods
  have p: "perPeriodSalary row_two_months ''mensual'' = Fin 100000"
    by (simp add: calc_eval row_two_months_def)
  then have pos: "js_gt (perPeriodSalary row_two_months ''mensual'') (Fin 0)"
    by (simp add: js_gt_def)
  have i: "1 < length [\<lparr>start = ''2024-01-01'', end = ''2024-01-31''\<rparr>,
                       \<lparr>start = ''2024-02-01'', end = ''2024-02-29''\<rparr>]"
    by simp
  have st: "start ([\<lparr>start = ''2024-01-01'', end = ''2024-01-31''\<rparr>,
                    \<lparr>start = ''2024-02-01'', end = ''2024-02-29''\<rparr>] ! 1) =
            ''2024'' @ ''-'' @ ''02'' @ ''-'' @ ''01''"
    by simp
  from C7_salary_detail_is_periodo_and_start_date [OF gp pos i st]
  show ?thesis
    using gp p by auto
qed

theorem C7_counterexample:
  "map_option (map CONCEPTO \<circ> details) (calculateRetroactive row_two_months ''mensual'') =
     Some [''Retroactivo sueldo'', ''Retroactivo HE diurna'', ''Retroactivo sueldo''] \<and>
   map_option (map DETALLE \<circ> details) (calculateRetroactive row_two_months ''mensual'') =
     Some [''Periodo 01/01/2024'', ''10 horas'', ''Periodo 01/02/2024'']"
  unfolding calculateRetroactive_eq [OF row_two_months_periods]
  by (simp add: calc_eval row_two_months_def)

lemma sorted_wrt_concat_map:
  assumes "sorted_wrt Q xs"
    and "\<And>x. x \<in> set xs \<Longrightarrow> sorted_wrt R (f x)"
    and "\<And>x x' u v. Q x x' \<Longrightarrow> u \<in> set (f x) \<Longrightarrow> v \<in> set (f x') \<Longrightarrow> R u v"
  shows "sorted_wrt R (concat (map f xs))"
  using assms(1,2)
proof (induction xs)
  case Nil
  then show ?case by simp
next
  case (Cons x xs)
  then have "sorted_wrt R (concat (map f xs))" "sorted_wrt R (f x)" by simp_all
  moreover have "R u v" if "u \<in> set (f x)" "v \<in> set (concat (map f xs))" for u v
  proof -
    from that(2) obtain x' where "x' \<in> set xs" "v \<in> set (f x')" by auto
    moreover from this(1) Cons.prems(1) have "Q x x'" by simp
    ultimately show ?thesis using assms(3) that(1) by blast
  qed
  ultimately show ?case by (simp add: sorted_wrt_append)
qed

lemma month_index_mono:
  fixes k k' :: int
  assumes "k < k'"
  shows "k div 12 < k' div 12 \<or> (k div 12 = k' div 12 \<and> k mod 12 < k' mod 12)"
proof -
  have le: "k div 12 \<le> k' div 12" using assms by (simp add: zdiv_mono1)
  have "k = 12 * (k div 12) + k mod 12" "k' = 12 * (k' div 12) + k' mod 12" by simp_all
  then have "k div 12 = k' div 12 \<Longrightarrow> k mod 12 < k' mod 12"
    using assms by (metis add_less_cancel_left)
  with le show ?thesis by auto
qed

lemma visited_months_sorted: "sorted_wrt month_before (visited_months sY sM eY eM)"
  unfolding visited_months_def sorted_wrt_map
proof (rule sorted_wrt_mono_rel [OF _ sorted_wrt_upto])
  fix k k' :: int
  assume "k < k'"
  from month_index_mono [OF this]
  show "month_before (k div 12, k mod 12 + 1) (k' div 12, k' mod 12 + 1)"
    by (auto simp: month_before_def)
qed

lemma last_day_bounds: "28 \<le> last_day y m" "last_day y m \<le> 31"
  by (simp_all add: last_day_def month_length_bounds)

lemma period_days_sorted: "sorted_wrt precedes (period_days t sY sM sD eY eM eD)"
  unfolding period_days_def
proof (rule sorted_wrt_concat_map [OF visited_months_sorted], goal_cases)
  case (1 x)
  show ?case
    by (cases x) (auto simp: precedes_def)
next
  case (2 x x' u v)
  then show ?case
    by (cases x; cases x') (auto simp: precedes_def month_before_def split: if_splits)
qed

lemma period_days_within:
  assumes "q \<in> set (period_days t sY sM sD eY eM eD)"
  shows "within_month q" "t \<noteq> ''mensual'' \<Longrightarrow> half_month q"
proof -
  from assms obtain y m where ym: "(y, m) \<in> set (visited_months sY sM eY eM)"
    and q: "q \<in> set (if t = ''mensual'' then
                   (if \<not> ((y = sY \<and> m = sM \<and> sD > 1) \<or>
                           (y = eY \<and> m = eM \<and> eD < last_day y m))
                    then [(y, m, 1, last_day y m)] else [])
                 else
                   (if first_half_emitted sY sM sD eY eM eD y m
                    then [(y, m, 1, 15)] else []) @
                   (if second_half_emitted sY sM sD eY eM eD y m
                    then [(y, m, 16, last_day y m)] else []))"
    unfolding period_days_def by auto
  have m: "1 \<le> m" "m \<le> 12" using visited_months_set [OF ym] by simp_all
  show "within_month q"
    using q m last_day_bounds(1) [of y m]
    by (auto simp: within_month_def split: if_splits)
  show "half_month q" if "t \<noteq> ''mensual''"
    using q that by (auto simp: half_month_def split: if_splits)
qed

text \<open>
  C8. For two dates and either cycle, the returned sequence is the rendering of day
  intervals that are chronologically ordered and pairwise disjoint (each ends before every
  later one starts), each inside one calendar month; under the semi-monthly cycle each is
  days 1 to 15 or days 16 to the last day of its month, so none crosses from the 15th to
  the 16th.
\<close>

theorem C8_periods_ordered_disjoint:
  assumes "parseDate startStr = [Jint sY, Jint sM, Jint sD]"
    and "parseDate endStr = [Jint eY, Jint eM, Jint eD]"
    and "1 \<le> sY" "eY \<le> 275000"
    and "1 \<le> sM" "sM \<le> 12" "1 \<le> eM" "eM \<le> 12"
  shows "getPeriods startStr endStr t = Some (map render (period_days t sY sM sD eY eM eD)) \<and>
         sorted_wrt precedes (period_days t sY sM sD eY eM eD) \<and>
         (\<forall>q \<in> set (period_days t sY sM sD eY eM eD). within_month q) \<and>
         (t \<noteq> ''mensual'' \<longrightarrow> (\<forall>q \<in> set (period_days t sY sM sD eY eM eD). half_month q))"
proof (intro conjI ballI impI)
  show "getPeriods startStr endStr t = Some (map render (period_days t sY sM sD eY eM eD))"
    by (rule getPeriods_render [OF assms])
  show "sorted_wrt precedes (period_days t sY sM sD eY eM eD)"
    by (rule period_days_sorted)
  show "within_month q" if "q \<in> set (period_days t sY sM sD eY eM eD)" for q
    using that by (rule period_days_within(1))
  show "half_month q"
    if "t \<noteq> ''mensual''" "q \<in> set (period_days t sY sM sD eY eM eD)" for q
    using that(2,1) by (rule period_days_within(2))
qed

theorem C8_witness:
  "parseDate (JStr ''2024-01-01'') = [Jint 2024, Jint 1, Jint 1] \<and>
   parseDate (JStr ''29/02/2024'') = [Jint 2024, Jint 2, Jint 29] \<and>
   period_days ''quincenal'' 2024 1 1 2024 2 29 =
     [(2024, 1, 1, 15), (2024, 1, 16, 31), (2024, 2, 1, 15), (2024, 2, 16, 29)] \<and>
   getPeriods (JStr ''2024-01-01'') (JStr ''29/02/2024'') ''quincenal'' =
     Some [\<lparr>start = ''2024-01-01'', end = ''2024-01-15''\<rparr>,
           \<lparr>start = ''2024-01-16'', end = ''2024-01-31''\<rparr>,
           \<lparr>start = ''2024-02-01'', end = ''2024-02-15''\<rparr>,
           \<lparr>start = ''2024-02-16'', end = ''2024-02-29''\<rparr>] \<and>
   sorted_wrt precedes (period_days ''quincenal'' 2024 1 1 2024 2 29) \<and>
   list_all within_month (period_days ''quincenal'' 2024 1 1 2024 2 29) \<and>
   list_all half_month (period_days ''quincenal'' 2024 1 1 2024 2 29)"
proof -
  have s: "parseDate (JStr ''2024-01-01'') = [Jint 2024, Jint 1, Jint 1]"
    by (simp add: parse_eval)
  have e: "parseDate (JStr ''29/02/2024'') = [Jint 2024, Jint 2, Jint 29]"
    by (simp add: parse_eval)
  have d: "period_days ''quincenal'' 2024 1 1 2024 2 29 =
     [(2024, 1, 1, 15), (2024, 1, 16, 31), (2024, 2, 1, 15), (2024, 2, 16, 29)]"
    by (simp add: period_days_def first_half_emitted_def second_half_emitted_def
          visited_months_def last_day_def month_length_def leap_def)
  have r: "map render [(2024, 1, 1, 15), (2024, 1, 16, 31), (2024, 2, 1, 15), (2024, 2, 16, 29)]
     = [\<lparr>start = ''2024-01-01'', end = ''2024-01-15''\<rparr>,
        \<lparr>start = ''2024-01-16'', end = ''2024-01-31''\<rparr>,
        \<lparr>start = ''2024-02-01'', end = ''2024-02-15''\<rparr>,
        \<lparr>start = ''2024-02-16'', end = ''2024-02-29''\<rparr>]"
    by (simp add: render_def period_eval)
  show ?thesis
    using s e C8_periods_ordered_disjoint [OF s e, of "''quincenal''"]
    unfolding d r by (simp add: list_all_iff)
qed

subsection \<open>Claims about the calculator\<close>

lemma otMapping_input_keys:
  "c \<in> set otMapping \<Longrightarrow>
     key c \<in> {''HED_CANTIDAD'', ''HEN_CANTIDAD'', ''HEFD_CANTIDAD'', ''HEFN_CANTIDAD''}"
  by (auto simp: otMapping_def)

lemma RN_other_fields:
  "(data(''RN_CANTIDAD'' := v)) ''CEDULA'' = data ''CEDULA''"
  "(data(''RN_CANTIDAD'' := v)) ''NOMBRE'' = data ''NOMBRE''"
  "(data(''RN_CANTIDAD'' := v)) ''CODIGO_FICHA_COLABORADOR'' = data ''CODIGO_FICHA_COLABORADOR''"
  "(data(''RN_CANTIDAD'' := v)) ''SUELDO_ANTERIOR'' = data ''SUELDO_ANTERIOR''"
  "(data(''RN_CANTIDAD'' := v)) ''SUELDO_NUEVO'' = data ''SUELDO_NUEVO''"
  "(data(''RN_CANTIDAD'' := v)) ''FECHA_INICIO'' = data ''FECHA_INICIO''"
  "(data(''RN_CANTIDAD'' := v)) ''FECHA_FIN'' = data ''FECHA_FIN''"
  by simp_all

lemma ot_step_RN:
  assumes "c \<in> set otMapping"
  shows "ot_step (data(''RN_CANTIDAD'' := v)) h c = ot_step data h c"
proof -
  have "key c \<noteq> ''RN_CANTIDAD''"
    using otMapping_input_keys [OF assms] by auto
  then have k: "(data(''RN_CANTIDAD'' := v)) (key c) = data (key c)"
    by simp
  show ?thesis
    unfolding ot_step_def k RN_other_fields ..
qed

lemma period_step_RN:
  "period_step (data(''RN_CANTIDAD'' := v)) r h = period_step data r h"
proof -
  have f: "fold (ot_step (data(''RN_CANTIDAD'' := v)) h) otMapping =
        fold (ot_step data h) otMapping"
    by (rule ext) (rule fold_cong [OF refl refl], rule ot_step_RN)
  show ?thesis
    unfolding period_step_def new_summary_def RN_other_fields f ..
qed

text \<open>
  C9. The night-surcharge quantity \<^verbatim>\<open>RN_CANTIDAD\<close> is not read: changing that field of
  a row, to any value, changes nothing in what \<^verbatim>\<open>calculateRetroactive\<close> returns (the
  detail lines, the summary rows, or its not returning).
\<close>

theorem C9_night_surcharge_quantity_ignored:
  "calculateRetroactive (data(''RN_CANTIDAD'' := v)) t = calculateRetroactive data t"
  unfolding calculateRetroactive_def RN_other_fields period_step_RN ..

theorem C9_witness:
  "calculateRetroactive (row_two_months(''RN_CANTIDAD'' := JStr ''8'')) ''mensual'' =
   calculateRetroactive row_two_months ''mensual''"
  by (rule C9_night_surcharge_quantity_ignored)

lemma nonpositive_mul:
  assumes "\<not> js_gt b (Fin 0)" "0 < f"
  shows "\<not> js_gt (js_mul b (Fin f)) (Fin 0)"
  using assms by (cases b) (simp_all add: js_gt_def mult_le_0_iff not_less)

lemma nonpositive_div:
  assumes "\<not> js_gt b (Fin 0)"
  shows "\<not> js_gt (js_div b (Fin 240)) (Fin 0)"
  using assms by (cases b) (simp_all add: js_gt_def not_less divide_le_0_iff)

lemma nonpositive_times_quantity:
  assumes "\<not> js_gt s (Fin 0)" "js_gt q (Fin 0)"
  shows "\<not> js_gt (js_mul s q) (Fin 0)"
proof (cases q)
  case (Fin x)
  with assms(2) have "0 < x" by (simp add: js_gt_def)
  with assms(1) Fin show ?thesis
    by (cases s) (simp_all add: js_gt_def mult_le_0_iff not_less)
next
  case PInf
  with assms(1) show ?thesis
    by (cases s) (simp_all add: js_gt_def Let_def not_less)
qed (use assms(2) in \<open>simp_all add: js_gt_def\<close>)

lemma nonpositive_overtime_amount:
  assumes "\<not> js_gt b (Fin 0)" "0 < f" "js_gt q (Fin 0)"
  shows "\<not> js_gt (js_mul (js_mul (js_div b (Fin 240)) (Fin f)) q) (Fin 0)"
  by (rule nonpositive_times_quantity [OF nonpositive_mul [OF nonpositive_div [OF assms(1)]
        assms(2)] assms(3)])

lemma otMapping_factors:
  "c \<in> set otMapping \<Longrightarrow> factor c \<in> {Fin 1.25, Fin 1.75, Fin 2.05, Fin 2.55}"
  by (auto simp: otMapping_def FACTORS_def)

lemma otMapping_factor_positive:
  "c \<in> set otMapping \<Longrightarrow> \<exists>f. factor c = Fin f \<and> 0 < f"
  using otMapping_factors [of c] by auto

lemma no_raise_no_overtime:
  assumes "\<not> js_gt (salaryDelta data) (Fin 0)" "c \<in> set otMapping"
  shows "\<not> overtime_emitted data c"
proof
  assume e: "overtime_emitted data c"
  from otMapping_factor_positive [OF assms(2)] obtain f where f: "factor c = Fin f" "0 < f"
    by auto
  from e have "js_gt (quantity data c) (Fin 0)" "js_gt (overtime_amount data c) (Fin 0)"
    by (simp_all add: overtime_emitted_def)
  with nonpositive_overtime_amount [OF assms(1) f(2), of "quantity data c"] f(1)
  show False by (simp add: overtime_amount_def hourlyDelta_def)
qed

lemma no_raise_no_salary:
  assumes "\<not> js_gt (salaryDelta data) (Fin 0)"
  shows "\<not> js_gt (perPeriodSalary data t) (Fin 0)"
  using nonpositive_mul [OF assms, of 1] nonpositive_mul [OF assms, of "1 / 2"]
  by (simp add: perPeriodSalary_def periodFactor_def)

lemma no_raise_round:
  assumes "\<not> js_gt (salaryDelta data) (Fin 0)"
  shows "round_lines data t i p = []"
    and "round_summary data t i p = new_summary data (formattedStartDate p)"
proof -
  have none: "(\<lambda>c. if overtime_emitted data c then [overtime_line data c] else []) c = []"
    if "c \<in> set otMapping" for c
    using no_raise_no_overtime [OF assms that] by simp
  have "concat (map (\<lambda>c. if overtime_emitted data c then [overtime_line data c] else [])
                  otMapping) = []"
    using none by (simp del: concat_eq_Nil_conv add: concat_eq_Nil_conv [THEN iffD2])
  then show "round_lines data t i p = []"
    using no_raise_no_salary [OF assms, of t] by (simp add: round_lines_def)
  have "fold (overtime_fields data) cs sm = sm" if "set cs \<subseteq> set otMapping" for cs sm
    using that no_raise_no_overtime [OF assms]
    by (induction cs arbitrary: sm) (simp_all add: overtime_fields_def)
  then show "round_summary data t i p = new_summary data (formattedStartDate p)"
    using no_raise_no_salary [OF assms, of t] by (simp add: round_summary_def Let_def)
qed

lemma enumerate_map_snd: "map (\<lambda>(i, p). f p) (enumerate n ps) = map f ps"
  by (induction ps arbitrary: n) simp_all

text \<open>The currency and quantity properties of a summary row.\<close>

lemma currency_fields_zero:
  "k \<in> set (key_salario # report_keys otMapping) \<Longrightarrow>
     get_prop (new_summary data s) k = JNum (Fin 0)"
  using new_summary_zero [where data = data and s = s] by (auto simp: report_keys_def)

text \<open>
  C10. When the date range segments to the periods \<open>ps\<close>, \<^verbatim>\<open>calculateRetroactive\<close>
  returns exactly one summary row per period. A row starts with its nine currency and
  quantity properties at zero; when the salary delta is zero or negative (whatever the
  overtime quantities) every row is returned just so and there is no detail line: the
  summaries are then as many as the periods while the details are empty.
\<close>

theorem C10_one_summary_row_per_period:
  assumes "getPeriods (data ''FECHA_INICIO'') (data ''FECHA_FIN'') t = Some ps"
  shows "\<exists>r. calculateRetroactive data t = Some r \<and>
           length (summaries r) = length ps \<and>
           (\<not> js_gt (salaryDelta data) (Fin 0) \<longrightarrow>
              details r = [] \<and>
              summaries r = map (\<lambda>p. new_summary data (formattedStartDate p)) ps \<and>
              (\<forall>sm \<in> set (summaries r). \<forall>k \<in> set (key_salario # report_keys otMapping).
                 get_prop sm k = JNum (Fin 0)))"
proof -
  let ?r = "\<lparr>details = concat (map (\<lambda>(i, p). round_lines data t i p) (enumerate 0 ps)),
            summaries = map (\<lambda>(i, p). round_summary data t i p) (enumerate 0 ps)\<rparr>"
  have r: "calculateRetroactive data t = Some ?r"
    by (rule calculateRetroactive_eq [OF assms])
  have len: "length (summaries ?r) = length ps" by simp
  have zero: "details ?r = [] \<and>
              summaries ?r = map (\<lambda>p. new_summary data (formattedStartDate p)) ps \<and>
              (\<forall>sm \<in> set (summaries ?r). \<forall>k \<in> set (key_salario # report_keys otMapping).
                 get_prop sm k = JNum (Fin 0))"
    if nr: "\<not> js_gt (salaryDelta data) (Fin 0)"
  proof -
    have s: "summaries ?r = map (\<lambda>p. new_summary data (formattedStartDate p)) ps"
      by (simp add: no_raise_round [OF nr] enumerate_map_snd)
    have d: "details ?r = []"
      by (simp add: no_raise_round [OF nr])
    show ?thesis
      unfolding s d using currency_fields_zero by auto
  qed
  show ?thesis
    using r len zero by blast
qed
theorem C10_witness:
  "getPeriods (row_no_raise ''FECHA_INICIO'') (row_no_raise ''FECHA_FIN'') ''mensual'' =
     Some [\<lparr>start = ''2024-01-01'', end = ''2024-01-31''\<rparr>,
           \<lparr>start = ''2024-02-01'', end = ''2024-02-29''\<rparr>] \<and>
   salaryDelta row_no_raise = Fin 0 \<and>
   map_option details (calculateRetroactive row_no_raise ''mensual'') = Some [] \<and>
   map_option (length \<circ> summaries) (calculateRetroactive row_no_raise ''mensual'') = Some 2"
proof -
  have gp: "getPeriods (row_no_raise ''FECHA_INICIO'') (row_no_raise ''FECHA_FIN'') ''mensual'' =
     Some [\<lparr>start = ''2024-01-01'', end = ''2024-01-31''\<rparr>,
           \<lparr>start = ''2024-02-01'', end = ''2024-02-29''\<rparr>]"
    by (simp add: row_no_raise_fields january_february_2024)
  from C10_one_summary_row_per_period [OF gp]
  show ?thesis
    using gp by (auto simp: row_no_raise_fields js_gt_def)
qed

end
